theory Spec2Isabelle
  imports Main "HOL-Library.Word" "HOL-Library.Signed_Division"
begin

unbundle bit_operations_syntax

section \<open>mclient: capture and resolution synchronisation\<close>

text \<open>
  A shallow embedding of \<^verbatim>\<open>src/mclient/mclient.c\<close>.  C \<^verbatim>\<open>uint32_t\<close> and the
  \<^verbatim>\<open>int\<close> fields of Xlib structures are 32-bit words (\<open>sint\<close> reads the signed ones);
  small status codes returned by the functions are \<open>int\<close>.  A call that never comes
  back, or whose behaviour C leaves undefined, is a value of \<open>fault\<close>.
\<close>

type_synonym byte = "8 word"
type_synonym uint32_t = "32 word"
type_synonym c_int = "32 word"

datatype fault = Blocks | Undefined

subsection \<open>Images and buffers\<close>

text \<open>
  The fields of Xlib's \<^verbatim>\<open>XImage\<close> that the program reads.  \<open>data\<close> is the memory
  reachable through the \<^verbatim>\<open>data\<close> pointer.
\<close>

record XImage =
  width :: c_int
  height :: c_int
  bytes_per_line :: c_int
  bits_per_pixel :: c_int
  data :: "byte list"

text \<open>
  Modelled from the spec: \<^verbatim>\<open>MBuffer\<close> is declared in \<^verbatim>\<open>mlib.h\<close>, which is not part of
  the sources at hand.  The spec gives it a width, a height, a stride and raw byte
  storage; the code multiplies the stride by 4 to get bytes per line, so the stride counts
  4-byte pixels and \<open>bits\<close> is addressed in bytes.
\<close>

record MBuffer =
  buf_width :: uint32_t
  buf_height :: uint32_t
  stride :: uint32_t
  bits :: "byte list"

text \<open>
  \<^verbatim>\<open>memcpy(dst + d, src + s, n)\<close> on two distinct objects: defined only when both
  ranges lie inside their objects.
\<close>

definition memcpy :: "byte list \<Rightarrow> nat \<Rightarrow> byte list \<Rightarrow> nat \<Rightarrow> nat \<Rightarrow> fault + byte list" where
  "memcpy dst d src s n =
     (if d + n \<le> length dst \<and> s + n \<le> length src
      then Inr (take d dst @ take n (drop s src) @ drop (d + n) dst)
      else Inl Undefined)"

subsection \<open>Row copy\<close>

text \<open>The \<^verbatim>\<open>for (y = row_start; y < row_end; ++y)\<close> loop of
  \<^verbatim>\<open>copy_ximg_rows_to_buffer_mlocked\<close>, with its two locals passed along.\<close>

function copy_rows_loop ::
  "byte list \<Rightarrow> XImage \<Rightarrow> uint32_t \<Rightarrow> uint32_t \<Rightarrow> uint32_t \<Rightarrow> uint32_t \<Rightarrow> fault + byte list" where
  "copy_rows_loop dst ximg buf_bytes_per_line ximg_bytes_per_pixel y row_end =
     (if y < row_end then
        (case memcpy dst (unat (y * buf_bytes_per_line))
                (data ximg) (unat (y * bytes_per_line ximg))
                (unat (width ximg * ximg_bytes_per_pixel)) of
           Inl e \<Rightarrow> Inl e
         | Inr dst' \<Rightarrow>
             copy_rows_loop dst' ximg buf_bytes_per_line ximg_bytes_per_pixel (y + 1) row_end)
      else Inr dst)"
  by pat_completeness auto
termination
proof (relation "measure (\<lambda>(dst, ximg, bpl, bpp, y, row_end). unat row_end - unat y)")
  show "wf (measure (\<lambda>(dst :: byte list, ximg :: XImage, bpl :: uint32_t, bpp :: uint32_t,
                       y :: uint32_t, row_end :: uint32_t). unat row_end - unat y))"
    by simp
next
  fix dst :: "byte list" and ximg :: XImage and bpl bpp y row_end :: uint32_t
    and x2 :: "byte list"
  assume lt: "y < row_end"
  then have "y + 1 \<noteq> 0"
    by (metis eq_neg_iff_add_eq_0 word_order.extremum_strict)
  then have "unat (y + 1) = Suc (unat y)"
    using unatSuc [of y] by (simp add: add.commute)
  moreover from lt have "unat y < unat row_end"
    by (simp add: word_less_nat_alt)
  ultimately show "((x2, ximg, bpl, bpp, y + 1, row_end), (dst, ximg, bpl, bpp, y, row_end))
      \<in> measure (\<lambda>(dst, ximg, bpl, bpp, y, row_end). unat row_end - unat y)"
    by simp
qed

declare copy_rows_loop.simps [simp del]

definition copy_ximg_rows_to_buffer_mlocked ::
  "MBuffer \<Rightarrow> XImage \<Rightarrow> uint32_t \<Rightarrow> uint32_t \<Rightarrow> fault + (int \<times> MBuffer)" where
  "copy_ximg_rows_to_buffer_mlocked buf ximg row_start row_end =
     (let buf_bytes_per_line = stride buf * 4;
          ximg_bytes_per_pixel = word_of_int (sint (bits_per_pixel ximg) sdiv 8)
      in case copy_rows_loop (bits buf) ximg buf_bytes_per_line ximg_bytes_per_pixel
                row_start row_end of
           Inl e \<Rightarrow> Inl e
         | Inr b \<Rightarrow> Inr (0, buf\<lparr>bits := b\<rparr>))"

definition copy_ximg_to_buffer_mlocked :: "MBuffer \<Rightarrow> XImage \<Rightarrow> fault + (int \<times> MBuffer)" where
  "copy_ximg_to_buffer_mlocked buf ximg =
     copy_ximg_rows_to_buffer_mlocked buf ximg 0 (height ximg)"

subsection \<open>The display connection and its environment\<close>

text \<open>
  An event as the program reads it: its type code and, for a screen-change notification,
  the size it reports.  \<open>ev_root_known\<close> says whether Xlib can place the event's root
  window on a screen of this connection, which is what decides the result of
  \<^verbatim>\<open>XRRUpdateConfiguration\<close> on such an event.
\<close>

record XEvent =
  ev_type :: int
  ev_width :: c_int
  ev_height :: c_int
  ev_root_known :: bool

record XRRModeInfo =
  mode_id :: nat
  mode_width :: uint32_t
  mode_height :: uint32_t

record XRRScreenResources =
  modes :: "XRRModeInfo list"
  crtcs :: "nat list"

record XShmSegmentInfo =
  shmid :: c_int
  shmaddr :: "64 word"
  readOnly :: bool

text \<open>What one run of \<^verbatim>\<open>xshm_init\<close> is answered by Xlib and the kernel:
  \<open>create_image\<close> is \<open>None\<close> when \<^verbatim>\<open>XShmCreateImage\<close> returns \<^verbatim>\<open>NULL\<close>, else the
  address the allocator gives the new structure with the bytes per line and bits per
  pixel Xlib chooses for it; \<open>shmget_result\<close> and \<open>shmat_result\<close> are the values
  returned by \<^verbatim>\<open>shmget\<close> and \<^verbatim>\<open>shmat\<close> (\<open>- 1\<close> on failure); \<open>attach_ok\<close> is the
  status of \<^verbatim>\<open>XShmAttach\<close>.\<close>

record shm_answers =
  create_image :: "(nat \<times> c_int \<times> c_int) option"
  shmget_result :: c_int
  shmat_result :: "64 word"
  attach_ok :: bool

text \<open>The library calls the program makes, recorded in the order they are made.\<close>

datatype xcall =
    GetDisplayInfo
  | CheckIfEvent
  | IfEvent
  | NextEvent
  | UpdateConfiguration c_int c_int
  | GrabServer
  | UngrabServer
  | DisplayWidth
  | DisplayHeight
  | DisplayHeightMM
  | GetScreenResources
  | FreeScreenResources
  | GetCrtcInfo nat
  | SetCrtcConfig nat nat
  | SetScreenSize uint32_t uint32_t
  | LockBuffer
  | UnlockBuffer
  | ShmGetImage
  | DamageSubtract
  | CursorEvent

text \<open>
  The state the program runs against.  The first group is the client side of the X
  connection: the screen size Xlib has cached (what \<^verbatim>\<open>XDisplayWidth\<close> and
  \<^verbatim>\<open>XDisplayHeight\<close> return), the events that have already arrived (\<open>queue\<close>), the
  events that arrive later, seen only by a call that waits (\<open>incoming\<close>), and the calls
  made so far.  The second group is the resources held: live \<^verbatim>\<open>XImage\<close> structures by
  address, shared-memory segments by id with their size, attached mappings by address,
  segments registered with the X server, and whether the destination buffer is locked.
  A pointer to an \<^verbatim>\<open>XImage\<close> is its address; following a pointer whose structure has
  been freed is undefined unless the allocator has placed a new structure there.
  The last group is what the environment answers: each run of \<^verbatim>\<open>xshm_init\<close> takes the
  next entry of \<open>shm_script\<close>, and a script that has run out answers that no image can be
  created.  Physical sizes in millimetres are computed by the program in floating point
  and are left out.
\<close>

record world =
  scr_width :: c_int
  scr_height :: c_int
  queue :: "XEvent list"
  incoming :: "XEvent list"
  calls :: "xcall list"

  ximages :: "nat \<rightharpoonup> XImage"
  segments :: "c_int \<rightharpoonup> nat"
  mappings :: "64 word \<rightharpoonup> c_int"
  server_attached :: "c_int list"
  locked :: bool

  display_info :: "(c_int \<times> c_int) option"
  screen_resources :: "XRRScreenResources option"
  crtc_info_ok :: bool
  set_crtc_config_ok :: bool
  lock_result :: int
  unlock_result :: int
  get_image_ok :: bool
  screen_contents :: "byte list"
  shm_script :: "shm_answers list"
  xshm_detach_ok :: bool
  resize_buffer_ok :: bool
  buffer_stride :: "uint32_t \<Rightarrow> uint32_t"

definition called :: "xcall \<Rightarrow> world \<Rightarrow> world" where
  "called c w = w\<lparr>calls := calls w @ [c]\<rparr>"

text \<open>Constants of the X protocol headers.\<close>

definition RRScreenChangeNotify :: int where
  "RRScreenChangeNotify = 0"

definition XDamageNotify :: int where
  "XDamageNotify = 0"

subsubsection \<open>Events\<close>

text \<open>The first element that satisfies \<open>P\<close>, with the elements before it and the
  elements after it.\<close>

fun first_match :: "('a \<Rightarrow> bool) \<Rightarrow> 'a list \<Rightarrow> ('a list \<times> 'a \<times> 'a list) option" where
  "first_match P [] = None"
| "first_match P (x # xs) =
     (if P x then Some ([], x, xs)
      else case first_match P xs of
             None \<Rightarrow> None
           | Some (pre, y, rest) \<Rightarrow> Some (x # pre, y, rest))"

text \<open>\<^verbatim>\<open>XCheckIfEvent\<close> looks at the events that have arrived and does not wait.\<close>

definition XCheckIfEvent :: "(XEvent \<Rightarrow> bool) \<Rightarrow> world \<Rightarrow> XEvent option \<times> world" where
  "XCheckIfEvent P w =
     (let w' = called CheckIfEvent w
      in case first_match P (queue w') of
           None \<Rightarrow> (None, w')
         | Some (pre, ev, rest) \<Rightarrow> (Some ev, w'\<lparr>queue := pre @ rest\<rparr>))"

text \<open>\<^verbatim>\<open>XIfEvent\<close> waits until an event that satisfies the predicate has arrived; the
  events it passes over stay queued.  When no such event ever arrives it does not return.\<close>

definition XIfEvent :: "(XEvent \<Rightarrow> bool) \<Rightarrow> world \<Rightarrow> (fault + XEvent) \<times> world" where
  "XIfEvent P w =
     (let w' = called IfEvent w
      in case first_match P (queue w') of
           Some (pre, ev, rest) \<Rightarrow> (Inr ev, w'\<lparr>queue := pre @ rest\<rparr>)
         | None \<Rightarrow>
             (case first_match P (incoming w') of
                None \<Rightarrow> (Inl Blocks, w'\<lparr>queue := queue w' @ incoming w', incoming := []\<rparr>)
              | Some (pre, ev, rest) \<Rightarrow>
                  (Inr ev, w'\<lparr>queue := queue w' @ pre, incoming := rest\<rparr>)))"

text \<open>\<^verbatim>\<open>XNextEvent\<close> returns the oldest event, waiting for one if none has arrived.\<close>

definition XNextEvent :: "world \<Rightarrow> (fault + XEvent) \<times> world" where
  "XNextEvent w =
     (let w' = called NextEvent w
      in case queue w' of
           ev # q \<Rightarrow> (Inr ev, w'\<lparr>queue := q\<rparr>)
         | [] \<Rightarrow>
             (case incoming w' of
                [] \<Rightarrow> (Inl Blocks, w')
              | ev # rest \<Rightarrow> (Inr ev, w'\<lparr>incoming := rest\<rparr>)))"

text \<open>\<^verbatim>\<open>XRRUpdateConfiguration\<close> on a screen-change notification stores the reported
  size in Xlib's screen record and returns 1, or returns 0 when the root window of the
  event is not one of this connection.  The program calls it on no other kind of event.\<close>

definition XRRUpdateConfiguration :: "XEvent \<Rightarrow> world \<Rightarrow> int \<times> world" where
  "XRRUpdateConfiguration ev w =
     (let w' = called (UpdateConfiguration (ev_width ev) (ev_height ev)) w
      in if ev_root_known ev
         then (1, w'\<lparr>scr_width := ev_width ev, scr_height := ev_height ev\<rparr>)
         else (0, w'))"

definition XDisplayWidth :: "world \<Rightarrow> c_int \<times> world" where
  "XDisplayWidth w = (scr_width w, called DisplayWidth w)"

definition XDisplayHeight :: "world \<Rightarrow> c_int \<times> world" where
  "XDisplayHeight w = (scr_height w, called DisplayHeight w)"

text \<open>Modelled from the spec: \<^verbatim>\<open>MGetDisplayInfo\<close> belongs to \<^verbatim>\<open>mlib\<close>, which is not
  part of the sources at hand.  It queries the destination subsystem's desired geometry,
  which may be unavailable (a negative status) or non-positive.\<close>

definition MGetDisplayInfo :: "world \<Rightarrow> (int \<times> c_int \<times> c_int) \<times> world" where
  "MGetDisplayInfo w =
     (case display_info w of
        None \<Rightarrow> ((- 1, 0, 0), called GetDisplayInfo w)
      | Some (dw, dh) \<Rightarrow> ((0, dw, dh), called GetDisplayInfo w))"

subsection \<open>Rendering\<close>

text \<open>Modelled from the spec: \<^verbatim>\<open>MLockBuffer\<close> and \<^verbatim>\<open>MUnlockBuffer\<close> belong to
  \<^verbatim>\<open>mlib\<close>, which is not part of the sources at hand; the destination buffer is
  locked and unlocked around writes, and either call may fail with a negative status.\<close>

definition MLockBuffer :: "world \<Rightarrow> int \<times> world" where
  "MLockBuffer w =
     (let w' = called LockBuffer w
      in if lock_result w' < 0 then (lock_result w', w')
         else (lock_result w', w'\<lparr>locked := True\<rparr>))"

definition MUnlockBuffer :: "world \<Rightarrow> int \<times> world" where
  "MUnlockBuffer w =
     (let w' = called UnlockBuffer w
      in if unlock_result w' < 0 then (unlock_result w', w')
         else (unlock_result w', w'\<lparr>locked := False\<rparr>))"

text \<open>\<^verbatim>\<open>XShmGetImage\<close> writes the screen contents into the image's shared memory when it
  succeeds and leaves the memory as it was when it fails.\<close>

definition overwrite :: "byte list \<Rightarrow> byte list \<Rightarrow> byte list" where
  "overwrite new old = take (length old) new @ drop (length new) old"

definition XShmGetImage :: "nat \<Rightarrow> world \<Rightarrow> (fault + bool) \<times> world" where
  "XShmGetImage ximg w =
     (let w' = called ShmGetImage w
      in case ximages w' ximg of
           None \<Rightarrow> (Inl Undefined, w')
         | Some img \<Rightarrow>
             if get_image_ok w'
             then (Inr True,
                   w'\<lparr>ximages := (ximages w')
                          (ximg \<mapsto> img\<lparr>data := overwrite (screen_contents w') (data img)\<rparr>)\<rparr>)
             else (Inr False, w'))"

text \<open>\<^verbatim>\<open>render_root\<close>; the \<^verbatim>\<open>Display\<close> and \<^verbatim>\<open>MDisplay\<close> arguments are the world, the
  buffer is passed and returned, the image is a pointer.\<close>

definition render_root :: "MBuffer \<Rightarrow> nat \<Rightarrow> world \<Rightarrow> (fault + int) \<times> MBuffer \<times> world" where
  "render_root buf ximg w =
     (case MLockBuffer w of
        (err, w1) \<Rightarrow>
          if err < 0 then (Inr (- 1), buf, w1)
          else
            (case XShmGetImage ximg w1 of
               (Inl f, w2) \<Rightarrow> (Inl f, buf, w2)
             | (Inr status, w2) \<Rightarrow>
                 (case ximages w2 ximg of
                    None \<Rightarrow> (Inl Undefined, buf, w2)
                  | Some img \<Rightarrow>
                      (case copy_ximg_to_buffer_mlocked buf img of
                         Inl f \<Rightarrow> (Inl f, buf, w2)
                       | Inr (_, buf') \<Rightarrow>
                           (case MUnlockBuffer w2 of
                              (err', w3) \<Rightarrow>
                                if err' < 0 then (Inr (- 1), buf', w3)
                                else (Inr 0, buf', w3))))))"

subsection \<open>Shared memory\<close>

text \<open>\<^verbatim>\<open>shmdt\<close> fails when the address is not an attached mapping, and
  \<^verbatim>\<open>shmctl(IPC_RMID)\<close> when the id names no segment.\<close>

definition shmdt :: "64 word \<Rightarrow> world \<Rightarrow> int \<times> world" where
  "shmdt addr w =
     (case mappings w addr of
        None \<Rightarrow> (- 1, w)
      | Some _ \<Rightarrow> (0, w\<lparr>mappings := (mappings w)(addr := None)\<rparr>))"

definition shmctl_rmid :: "c_int \<Rightarrow> world \<Rightarrow> int \<times> world" where
  "shmctl_rmid sid w =
     (case segments w sid of
        None \<Rightarrow> (- 1, w)
      | Some _ \<Rightarrow> (0, w\<lparr>segments := (segments w)(sid := None)\<rparr>))"

definition cleanup_shm :: "64 word \<Rightarrow> c_int \<Rightarrow> world \<Rightarrow> int \<times> world" where
  "cleanup_shm addr sid w =
     (case shmdt addr w of
        (r, w1) \<Rightarrow>
          if r < 0 then (- 1, w1)
          else
            (case shmctl_rmid sid w1 of
               (r', w2) \<Rightarrow> if r' < 0 then (- 1, w2) else (0, w2)))"

text \<open>\<^verbatim>\<open>xshm_cleanup\<close>.  \<^verbatim>\<open>XDestroyImage\<close> frees the structure; on a pointer that is
  not live it is undefined.\<close>

definition xshm_cleanup :: "XShmSegmentInfo \<Rightarrow> nat \<Rightarrow> world \<Rightarrow> (fault + int) \<times> world" where
  "xshm_cleanup shminfo ximg w =
     (let err = (if \<not> xshm_detach_ok w then - 1 else 0);
          w1 = (if xshm_detach_ok w
                then w\<lparr>server_attached := removeAll (shmid shminfo) (server_attached w)\<rparr> else w)
      in case ximages w1 ximg of
           None \<Rightarrow> (Inl Undefined, w1)
         | Some _ \<Rightarrow>
             (case cleanup_shm (shmaddr shminfo) (shmid shminfo)
                     (w1\<lparr>ximages := (ximages w1)(ximg := None)\<rparr>) of
                (r, w2) \<Rightarrow> (Inr (err OR r), w2)))"

text \<open>\<^verbatim>\<open>xshm_init\<close>.  The result is the pointer to the new image, \<open>None\<close> for
  \<^verbatim>\<open>NULL\<close>.  \<^verbatim>\<open>shmaddr\<close> is a pointer: the test \<^verbatim>\<open>shminfo->shmaddr < 0\<close> compares
  addresses, which are unsigned.\<close>

definition xshm_init :: "XShmSegmentInfo \<Rightarrow> world \<Rightarrow> nat option \<times> XShmSegmentInfo \<times> world" where
  "xshm_init shminfo w =
     (case XDisplayWidth w of
        (xwidth, wa) \<Rightarrow>
          (case XDisplayHeight wa of
             (xheight, wb) \<Rightarrow>
               (case shm_script wb of
                  [] \<Rightarrow> (None, shminfo, wb)
                | ans # rest \<Rightarrow>
                    (case create_image ans of
                       None \<Rightarrow> (None, shminfo, wb\<lparr>shm_script := rest\<rparr>)
                     | Some (p, bpl, bpp) \<Rightarrow>
                         (let img = \<lparr>width = xwidth, height = xheight, bytes_per_line = bpl,
                                     bits_per_pixel = bpp, data = []\<rparr>;
                              w1 = wb\<lparr>shm_script := rest, ximages := (ximages wb)(p \<mapsto> img)\<rparr>;
                              size = unat (bytes_per_line img * height img);
                              shminfo1 = shminfo\<lparr>shmid := shmget_result ans\<rparr>;
                              w2 = (if 0 \<le> sint (shmget_result ans)
                                    then w1\<lparr>segments := (segments w1)(shmget_result ans \<mapsto> size)\<rparr>
                                    else w1)
                          in if sint (shmid shminfo1) < 0 then (None, shminfo1, w2)
                             else
                               (let shminfo2 = shminfo1\<lparr>shmaddr := shmat_result ans\<rparr>;
                                    w3 = (if shmat_result ans \<noteq> - 1
                                          then w2\<lparr>mappings := (mappings w2)
                                                     (shmat_result ans \<mapsto> shmid shminfo1),
                                                  ximages := (ximages w2)
                                                     (p \<mapsto> img\<lparr>data := replicate size 0\<rparr>)\<rparr>
                                          else w2)
                                in if shmaddr shminfo2 < 0 then
                                     (case cleanup_shm (shmaddr shminfo2) (shmid shminfo2) w3 of
                                        (_, w4) \<Rightarrow> (None, shminfo2, w4))
                                   else
                                     (let shminfo3 = shminfo2\<lparr>readOnly := False\<rparr>
                                      in if \<not> attach_ok ans then
                                           (case cleanup_shm (shmaddr shminfo3) (shmid shminfo3) w3 of
                                              (_, w4) \<Rightarrow> (None, shminfo3, w4))
                                         else
                                           (Some p, shminfo3,
                                            w3\<lparr>server_attached :=
                                                 shmid shminfo3 # server_attached w3\<rparr>))))))))"

subsection \<open>Resolution synchronisation\<close>

text \<open>Pointer arguments that the code tests against \<^verbatim>\<open>NULL\<close> are options; the
  \<^verbatim>\<open>Display\<close> and \<^verbatim>\<open>MDisplay\<close> pointers carry no data of their own here, the state
  they stand for is the \<open>world\<close>.\<close>

datatype handle = Handle

fun find_mode_loop :: "XRRModeInfo list \<Rightarrow> uint32_t \<Rightarrow> uint32_t \<Rightarrow> XRRModeInfo option" where
  "find_mode_loop [] req_width req_height = None"
| "find_mode_loop (mode # rest) req_width req_height =
     (if mode_width mode = req_width \<and> mode_height mode = req_height then Some mode
      else find_mode_loop rest req_width req_height)"

definition x_find_matching_mode ::
  "handle option \<Rightarrow> XRRScreenResources option \<Rightarrow> uint32_t \<Rightarrow> uint32_t \<Rightarrow> XRRModeInfo option" where
  "x_find_matching_mode dpy screenr req_width req_height =
     (case (dpy, screenr) of
        (Some _, Some sr) \<Rightarrow> find_mode_loop (modes sr) req_width req_height
      | _ \<Rightarrow> None)"

text \<open>\<^verbatim>\<open>x_set_mode\<close>.  Reading \<^verbatim>\<open>screenr->crtcs[0]\<close> when there is no controller, and
  reading through the result of \<^verbatim>\<open>XRRGetCrtcInfo\<close> when it is \<^verbatim>\<open>NULL\<close>, are undefined.\<close>

definition x_set_mode ::
  "handle option \<Rightarrow> XRRScreenResources option \<Rightarrow> XRRModeInfo option \<Rightarrow> world
     \<Rightarrow> (fault + int) \<times> world" where
  "x_set_mode dpy screenr mode w =
     (case (dpy, screenr, mode) of
        (Some _, Some sr, Some m) \<Rightarrow>
          (let w1 = called DisplayHeightMM (called DisplayHeight w)
           in case crtcs sr of
                [] \<Rightarrow> (Inl Undefined, w1)
              | crtc # _ \<Rightarrow>
                  (let w2 = called (GetCrtcInfo crtc) w1
                   in if \<not> crtc_info_ok w2 then (Inl Undefined, w2)
                      else
                        (let w3 = called (SetCrtcConfig crtc (mode_id m)) w2
                         in if \<not> set_crtc_config_ok w3 then (Inr (- 1), w3)
                            else (Inr 0, called (SetScreenSize (mode_width m) (mode_height m)) w3))))
      | _ \<Rightarrow> (Inr (- 2), w))"

definition x_screenchangenotify_predicate :: "int \<Rightarrow> XEvent \<Rightarrow> bool" where
  "x_screenchangenotify_predicate xrandr_event_base ev \<longleftrightarrow>
     ev_type ev = xrandr_event_base + RRScreenChangeNotify"

text \<open>The \<^verbatim>\<open>for (i = 0; i < 3; ++i)\<close> loop of \<^verbatim>\<open>x_sync_mode\<close>.\<close>

function x_sync_mode_loop :: "XRRModeInfo \<Rightarrow> int \<Rightarrow> int \<Rightarrow> world \<Rightarrow> (fault + int) \<times> world" where
  "x_sync_mode_loop mode xrandr_event_base i w =
     (if i < 3 then
        (case XIfEvent (x_screenchangenotify_predicate xrandr_event_base) w of
           (Inl f, w1) \<Rightarrow> (Inl f, w1)
         | (Inr ev, w1) \<Rightarrow>
             if ev_type ev = xrandr_event_base + RRScreenChangeNotify then
               if ev_width ev = mode_width mode \<and> ev_height ev = mode_height mode then
                 (case XRRUpdateConfiguration ev w1 of
                    (r, w2) \<Rightarrow> if r = 0 then (Inr (- 1), w2) else (Inr 0, w2))
               else x_sync_mode_loop mode xrandr_event_base (i + 1) w1
             else x_sync_mode_loop mode xrandr_event_base (i + 1) w1)
      else (Inr (- 1), w))"
  by pat_completeness auto
termination
  by (relation "measure (\<lambda>(mode, xrandr_event_base, i, w). nat (3 - i))") auto

declare x_sync_mode_loop.simps [simp del]

definition x_sync_mode ::
  "handle option \<Rightarrow> XRRScreenResources option \<Rightarrow> XRRModeInfo option \<Rightarrow> int \<Rightarrow> world
     \<Rightarrow> (fault + int) \<times> world" where
  "x_sync_mode dpy screenr mode xrandr_event_base w =
     (case (dpy, screenr, mode) of
        (Some _, Some _, Some m) \<Rightarrow>
          if xrandr_event_base < 0 then (Inr (- 2), w)
          else x_sync_mode_loop m xrandr_event_base 0 w
      | _ \<Rightarrow> (Inr (- 2), w))"

text \<open>\<^verbatim>\<open>XRRGetScreenResources\<close> may return \<^verbatim>\<open>NULL\<close>; \<^verbatim>\<open>XRRFreeScreenResources\<close>
  only frees its argument, which is harmless for \<^verbatim>\<open>NULL\<close>.\<close>

definition XRRGetScreenResources :: "world \<Rightarrow> XRRScreenResources option \<times> world" where
  "XRRGetScreenResources w = (screen_resources w, called GetScreenResources w)"

definition XRRFreeScreenResources :: "XRRScreenResources option \<Rightarrow> world \<Rightarrow> world" where
  "XRRFreeScreenResources screenr w = called FreeScreenResources w"

text \<open>The part of \<^verbatim>\<open>sync_displays\<close> inside \<^verbatim>\<open>if (x_sync_needed)\<close>, up to and including
  \<^verbatim>\<open>XRRFreeScreenResources\<close>; its value is that of \<^verbatim>\<open>err\<close>.\<close>

definition sync_needed_branch ::
  "handle option \<Rightarrow> int \<Rightarrow> uint32_t \<Rightarrow> uint32_t \<Rightarrow> world \<Rightarrow> (fault + int) \<times> world" where
  "sync_needed_branch dpy xrandr_event_base target_width target_height w =
     (case XRRGetScreenResources w of
        (screenr, w1) \<Rightarrow>
          (case (case x_find_matching_mode dpy screenr target_width target_height of
                   Some matching_mode \<Rightarrow>
                     (case x_set_mode dpy screenr (Some matching_mode) w1 of
                        (Inl f, w2) \<Rightarrow> (Inl f, w2)
                      | (Inr r, w2) \<Rightarrow>
                          if r = 0 then
                            (case x_sync_mode dpy screenr (Some matching_mode)
                                    xrandr_event_base w2 of
                               (Inl f, w3) \<Rightarrow> (Inl f, w3)
                             | (Inr r', w3) \<Rightarrow> if r' = 0 then (Inr 0, w3) else (Inr (- 1), w3))
                          else (Inr (- 1), w2))
                 | None \<Rightarrow> (Inr (- 1), w1)) of
             (Inl f, w4) \<Rightarrow> (Inl f, w4)
           | (Inr err, w4) \<Rightarrow> (Inr err, XRRFreeScreenResources screenr w4)))"

text \<open>The re-sync before the grab: apply a screen-change notification that has already
  arrived, if there is one; a failed update is only logged.\<close>

definition pre_grab_resync :: "int \<Rightarrow> world \<Rightarrow> world" where
  "pre_grab_resync xrandr_event_base w =
     (case XCheckIfEvent (x_screenchangenotify_predicate xrandr_event_base) w of
        (Some ev, w') \<Rightarrow> snd (XRRUpdateConfiguration ev w')
      | (None, w') \<Rightarrow> w')"

definition sync_displays ::
  "handle option \<Rightarrow> handle option \<Rightarrow> int \<Rightarrow> world \<Rightarrow> (fault + int) \<times> world" where
  "sync_displays dpy mdpy xrandr_event_base w =
     (if dpy = None \<or> mdpy = None then (Inr (- 2), w)
      else
        (case MGetDisplayInfo w of
           ((st, dinfo_width, dinfo_height), w1) \<Rightarrow>
             if st < 0 then (Inr (- 1), w1)
             else if \<not> (0 < sint dinfo_width \<and> 0 < sint dinfo_height) then (Inr (- 1), w1)
             else
               (let target_width = dinfo_width;
                    target_height = dinfo_height;
                    w2 = pre_grab_resync xrandr_event_base w1;
                    w3 = called GrabServer w2
                in case XDisplayWidth w3 of
                     (xwidth, w4) \<Rightarrow>
                       (case XDisplayHeight w4 of
                          (xheight, w5) \<Rightarrow>
                            if xwidth \<noteq> target_width \<or> xheight \<noteq> target_height then
                              (case sync_needed_branch dpy xrandr_event_base
                                      target_width target_height w5 of
                                 (Inl f, w6) \<Rightarrow> (Inl f, w6)
                               | (Inr err, w6) \<Rightarrow> (Inr err, called UngrabServer w6))
                            else (Inr 0, called UngrabServer w5)))))"

subsection \<open>Resizing\<close>

text \<open>\<^verbatim>\<open>resize_shm\<close> receives the image pointer by value: the pointer to a rebuilt image
  is stored in the function's own parameter and only the status goes back to the caller.\<close>

definition resize_shm ::
  "nat \<Rightarrow> XShmSegmentInfo \<Rightarrow> world \<Rightarrow> (fault + int) \<times> XShmSegmentInfo \<times> world" where
  "resize_shm ximg shminfo w =
     (case XDisplayWidth w of
        (xwidth, w1) \<Rightarrow>
          (case XDisplayHeight w1 of
             (xheight, w2) \<Rightarrow>
               (case ximages w2 ximg of
                  None \<Rightarrow> (Inl Undefined, shminfo, w2)
                | Some img \<Rightarrow>
                    if width img \<noteq> xwidth \<or> height img \<noteq> xheight then
                      (case xshm_cleanup shminfo ximg w2 of
                         (Inl f, w3) \<Rightarrow> (Inl f, shminfo, w3)
                       | (Inr _, w3) \<Rightarrow>
                           (case xshm_init shminfo w3 of
                              (ximg', shminfo', w4) \<Rightarrow>
                                (Inr (if ximg' = None then - 1 else 0), shminfo', w4)))
                    else (Inr 0, shminfo, w2))))"

text \<open>Modelled from the spec: \<^verbatim>\<open>MCreateBuffer\<close> and \<^verbatim>\<open>MResizeBuffer\<close> belong to
  \<^verbatim>\<open>mlib\<close>, which is not part of the sources at hand.  They create, and resize in
  place, a pixel buffer of the given width and height; the destination subsystem picks
  the stride.\<close>

definition MCreateBuffer :: "bool \<Rightarrow> MBuffer \<Rightarrow> world \<Rightarrow> int \<times> MBuffer \<times> world" where
  "MCreateBuffer ok buf w =
     (if ok
      then (0, buf\<lparr>stride := buffer_stride w (buf_width buf),
                   bits := replicate (unat (buffer_stride w (buf_width buf) * 4 * buf_height buf)) 0\<rparr>,
            w)
      else (- 1, buf, w))"

definition MResizeBuffer :: "MBuffer \<Rightarrow> uint32_t \<Rightarrow> uint32_t \<Rightarrow> world \<Rightarrow> int \<times> MBuffer \<times> world" where
  "MResizeBuffer buf new_width new_height w =
     (if resize_buffer_ok w
      then (0, \<lparr>buf_width = new_width, buf_height = new_height,
                stride = buffer_stride w new_width,
                bits = replicate (unat (buffer_stride w new_width * 4 * new_height)) 0\<rparr>,
            w)
      else (- 1, buf, w))"

definition resize_mbuffer :: "MBuffer \<Rightarrow> world \<Rightarrow> int \<times> MBuffer \<times> world" where
  "resize_mbuffer root w =
     (case XDisplayWidth w of
        (xwidth, w1) \<Rightarrow>
          (case XDisplayHeight w1 of
             (xheight, w2) \<Rightarrow>
               if buf_width root \<noteq> xwidth \<or> buf_height root \<noteq> xheight then
                 (case MResizeBuffer root xwidth xheight w2 of
                    (r, root', w3) \<Rightarrow> if r < 0 then (- 1, root, w3) else (0, root', w3))
               else (0, root, w2)))"

subsection \<open>The event loop\<close>

text \<open>The number of events still to be delivered.  No function of the program adds to it and
  \<^verbatim>\<open>XNextEvent\<close> takes one away, which is why the event loop ends on every finite stream of
  events: by leaving the loop or by waiting for an event that never comes.\<close>

definition pending :: "world \<Rightarrow> nat" where
  "pending w = length (queue w) + length (incoming w)"

lemma pending_called [simp]: "pending (called c w) = pending w"
  by (simp add: pending_def called_def)

lemma first_match_length:
  "first_match P xs = Some (pre, y, rest) \<Longrightarrow> length xs = Suc (length pre + length rest)"
  by (induction xs arbitrary: pre) (auto split: option.splits if_splits)

lemma XNextEvent_pending:
  "XNextEvent w = (Inr ev, w') \<Longrightarrow> pending w' < pending w"
  by (auto simp: XNextEvent_def Let_def pending_def called_def split: list.splits)

lemma XIfEvent_pending: "XIfEvent P w = (r, w') \<Longrightarrow> pending w' \<le> pending w"
  by (auto simp: XIfEvent_def Let_def pending_def called_def
           dest!: first_match_length split: option.splits)

lemma XCheckIfEvent_pending: "XCheckIfEvent P w = (r, w') \<Longrightarrow> pending w' \<le> pending w"
  by (auto simp: XCheckIfEvent_def Let_def pending_def called_def
           dest!: first_match_length split: option.splits)

lemma XRRUpdateConfiguration_pending:
  "XRRUpdateConfiguration ev w = (r, w') \<Longrightarrow> pending w' = pending w"
  by (auto simp: XRRUpdateConfiguration_def Let_def pending_def called_def split: if_splits)

lemma x_sync_mode_loop_pending:
  "pending (snd (x_sync_mode_loop mode base i w)) \<le> pending w"
proof (induction mode base i w rule: x_sync_mode_loop.induct)
  case (1 mode base i w)
  let ?P = "x_screenchangenotify_predicate base"
  obtain r w1 where x: "XIfEvent ?P w = (r, w1)" by (cases "XIfEvent ?P w")
  note le = XIfEvent_pending [OF x]
  show ?case
  proof (cases "i < 3")
    case False
    then show ?thesis by (subst x_sync_mode_loop.simps) simp
  next
    case True
    show ?thesis
    proof (cases r)
      case (Inl f)
      with True x le show ?thesis by (subst x_sync_mode_loop.simps) simp
    next
      case (Inr ev)
      show ?thesis
      proof (cases "ev_type ev = base + RRScreenChangeNotify
                    \<and> ev_width ev = mode_width mode \<and> ev_height ev = mode_height mode")
        case True
        obtain u w2 where u: "XRRUpdateConfiguration ev w1 = (u, w2)"
          by (cases "XRRUpdateConfiguration ev w1")
        from XRRUpdateConfiguration_pending [OF u] le have "pending w2 \<le> pending w" by simp
        with \<open>i < 3\<close> x Inr True u show ?thesis
          by (subst x_sync_mode_loop.simps) (auto split: if_splits)
      next
        case False
        have rec: "pending (snd (x_sync_mode_loop mode base (i + 1) w1)) \<le> pending w1"
        proof (cases "ev_type ev = base + RRScreenChangeNotify")
          case True
          with False show ?thesis
            using "1.IH"(1) [OF \<open>i < 3\<close> x [symmetric] Inr True] by blast
        next
          case False
          then show ?thesis
            using "1.IH"(2) [OF \<open>i < 3\<close> x [symmetric] Inr] by blast
        qed
        have step: "x_sync_mode_loop mode base i w = x_sync_mode_loop mode base (i + 1) w1"
          using \<open>i < 3\<close> x Inr False by (subst x_sync_mode_loop.simps) auto
        from rec le show ?thesis by (simp add: step)
      qed
    qed
  qed
qed

lemma x_set_mode_pending: "x_set_mode dpy screenr mode w = (r, w') \<Longrightarrow> pending w' = pending w"
  by (auto simp: x_set_mode_def Let_def split: option.splits list.splits if_splits)

lemma x_sync_mode_pending:
  "x_sync_mode dpy screenr mode base w = (r, w') \<Longrightarrow> pending w' \<le> pending w"
  using x_sync_mode_loop_pending [of _ base 0 w]
  by (auto simp: x_sync_mode_def split: option.splits if_splits) (metis snd_conv)

lemma sync_needed_branch_pending:
  assumes "sync_needed_branch dpy base tw th w = (r, w')"
  shows "pending w' \<le> pending w"
proof (cases "x_find_matching_mode dpy (screen_resources w) tw th")
  case None
  with assms show ?thesis
    by (auto simp: sync_needed_branch_def XRRGetScreenResources_def XRRFreeScreenResources_def)
next
  case (Some m)
  let ?w1 = "called GetScreenResources w"
  obtain r2 w2 where sm: "x_set_mode dpy (screen_resources w) (Some m) ?w1 = (r2, w2)"
    by (cases "x_set_mode dpy (screen_resources w) (Some m) ?w1")
  obtain r3 w3 where sy: "x_sync_mode dpy (screen_resources w) (Some m) base w2 = (r3, w3)"
    by (cases "x_sync_mode dpy (screen_resources w) (Some m) base w2")
  from x_set_mode_pending [OF sm] have p2: "pending w2 = pending w" by simp
  from x_sync_mode_pending [OF sy] p2 have p3: "pending w3 \<le> pending w" by simp
  from assms Some sm sy p2 p3 show ?thesis
    by (auto simp: sync_needed_branch_def XRRGetScreenResources_def XRRFreeScreenResources_def
             split: sum.splits if_splits)
qed

lemma pre_grab_resync_pending: "pending (pre_grab_resync base w) \<le> pending w"
proof -
  let ?P = "x_screenchangenotify_predicate base"
  obtain r w1 where x: "XCheckIfEvent ?P w = (r, w1)" by (cases "XCheckIfEvent ?P w")
  note le = XCheckIfEvent_pending [OF x]
  show ?thesis
  proof (cases r)
    case None
    with x le show ?thesis by (simp add: pre_grab_resync_def)
  next
    case (Some ev)
    obtain u w2 where u: "XRRUpdateConfiguration ev w1 = (u, w2)"
      by (cases "XRRUpdateConfiguration ev w1")
    from XRRUpdateConfiguration_pending [OF u] le x Some u show ?thesis
      by (simp add: pre_grab_resync_def)
  qed
qed

lemma sync_displays_pending:
  assumes "sync_displays dpy mdpy base w = (r, w')"
  shows "pending w' \<le> pending w"
proof (cases "dpy = None \<or> mdpy = None \<or> display_info w = None
              \<or> \<not> (0 < sint (fst (the (display_info w))) \<and> 0 < sint (snd (the (display_info w))))")
  case True
  with assms show ?thesis
    by (auto simp: sync_displays_def MGetDisplayInfo_def split: option.splits if_splits)
next
  case False
  then obtain dw dh where di: "display_info w = Some (dw, dh)" "0 < sint dw" "0 < sint dh"
    and nn: "dpy \<noteq> None" "mdpy \<noteq> None"
    by auto
  let ?w2 = "pre_grab_resync base (called GetDisplayInfo w)"
  let ?w5 = "called DisplayHeight (called DisplayWidth (called GrabServer ?w2))"
  have p5: "pending ?w5 \<le> pending w"
    using pre_grab_resync_pending [of base "called GetDisplayInfo w"] by simp
  obtain r6 w6 where br: "sync_needed_branch dpy base dw dh ?w5 = (r6, w6)"
    by (cases "sync_needed_branch dpy base dw dh ?w5")
  from sync_needed_branch_pending [OF br] p5 have p6: "pending w6 \<le> pending w" by simp
  from assms di nn br have "w' = called UngrabServer ?w5 \<or> w' = w6 \<or> w' = called UngrabServer w6"
    by (auto simp: sync_displays_def MGetDisplayInfo_def XDisplayWidth_def XDisplayHeight_def
                   Let_def split: sum.splits if_splits)
  with p5 p6 show ?thesis by auto
qed

lemma render_root_pending:
  "render_root buf ximg w = (r, buf', w') \<Longrightarrow> pending w' = pending w"
  by (auto simp: render_root_def MLockBuffer_def MUnlockBuffer_def XShmGetImage_def Let_def
                 pending_def called_def
           split: if_splits sum.splits option.splits prod.splits)

lemma cleanup_shm_pending: "cleanup_shm a s w = (r, w') \<Longrightarrow> pending w' = pending w"
  by (auto simp: cleanup_shm_def shmdt_def shmctl_rmid_def pending_def
           split: if_splits option.splits prod.splits)

lemma xshm_cleanup_pending: "xshm_cleanup si p w = (r, w') \<Longrightarrow> pending w' = pending w"
proof -
  assume a: "xshm_cleanup si p w = (r, w')"
  let ?w1 = "if xshm_detach_ok w then w\<lparr>server_attached := removeAll (shmid si) (server_attached w)\<rparr> else w"
  have p1: "pending ?w1 = pending w" by (simp add: pending_def)
  show ?thesis
  proof (cases "ximages ?w1 p")
    case None
    with a p1 show ?thesis by (auto simp: xshm_cleanup_def Let_def split: if_splits)
  next
    case (Some img)
    let ?w2 = "?w1\<lparr>ximages := (ximages ?w1)(p := None)\<rparr>"
    obtain r2 w3 where c: "cleanup_shm (shmaddr si) (shmid si) ?w2 = (r2, w3)"
      by (cases "cleanup_shm (shmaddr si) (shmid si) ?w2")
    have "pending ?w2 = pending w" by (simp add: pending_def)
    with cleanup_shm_pending [OF c] have "pending w3 = pending w" by simp
    moreover from a Some c have "w' = w3"
      by (simp add: xshm_cleanup_def Let_def split: if_splits)
    ultimately show ?thesis by simp
  qed
qed

lemma xshm_init_pending: "xshm_init si w = (r, si', w') \<Longrightarrow> pending w' = pending w"
  by (auto simp: xshm_init_def XDisplayWidth_def XDisplayHeight_def Let_def pending_def called_def
                 cleanup_shm_def shmdt_def shmctl_rmid_def
           split: if_splits option.splits prod.splits list.splits)

lemma resize_shm_pending:
  assumes "resize_shm p si w = (r, si', w')"
  shows "pending w' = pending w"
proof -
  let ?w2 = "called DisplayHeight (called DisplayWidth w)"
  obtain rc w3 where c: "xshm_cleanup si p ?w2 = (rc, w3)" by (cases "xshm_cleanup si p ?w2")
  obtain ri si2 w4 where i: "xshm_init si w3 = (ri, si2, w4)" by (cases "xshm_init si w3") auto
  from xshm_cleanup_pending [OF c] have p3: "pending w3 = pending w" by simp
  from xshm_init_pending [OF i] p3 have p4: "pending w4 = pending w" by simp
  from assms c i have "w' = ?w2 \<or> w' = w3 \<or> w' = w4"
    by (auto simp: resize_shm_def XDisplayWidth_def XDisplayHeight_def
             split: option.splits if_splits sum.splits)
  with p3 p4 show ?thesis by auto
qed

lemma resize_mbuffer_pending:
  "resize_mbuffer root w = (r, root', w') \<Longrightarrow> pending w' = pending w"
  by (auto simp: resize_mbuffer_def MResizeBuffer_def XDisplayWidth_def XDisplayHeight_def
           split: if_splits prod.splits)

function main_loop ::
  "int \<Rightarrow> int \<Rightarrow> nat \<Rightarrow> XShmSegmentInfo \<Rightarrow> MBuffer \<Rightarrow> world
     \<Rightarrow> (fault + unit) \<times> XShmSegmentInfo \<times> MBuffer \<times> world" where
  "main_loop xdamage_event_base xrandr_event_base ximg shminfo root w =
     (case XNextEvent w of
        (Inl f, w1) \<Rightarrow> (Inl f, shminfo, root, w1)
      | (Inr ev, w1) \<Rightarrow>
          if ev_type ev = xdamage_event_base + XDamageNotify then
            (case render_root root ximg (called DamageSubtract w1) of
               (Inl f, root', w2) \<Rightarrow> (Inl f, shminfo, root', w2)
             | (Inr _, root', w2) \<Rightarrow>
                 main_loop xdamage_event_base xrandr_event_base ximg shminfo root' w2)
          else if ev_type ev = xrandr_event_base + RRScreenChangeNotify then
            (case sync_displays (Some Handle) (Some Handle) xrandr_event_base
                    (snd (XRRUpdateConfiguration ev w1)) of
               (Inl f, w3) \<Rightarrow> (Inl f, shminfo, root, w3)
             | (Inr _, w3) \<Rightarrow>
                 (case resize_shm ximg shminfo w3 of
                    (Inl f, shminfo', w4) \<Rightarrow> (Inl f, shminfo', root, w4)
                  | (Inr r, shminfo', w4) \<Rightarrow>
                      if r < 0 then (Inr (), shminfo', root, w4)
                      else
                        (case resize_mbuffer root w4 of
                           (r', root', w5) \<Rightarrow>
                             if r' < 0 then (Inr (), shminfo', root', w5)
                             else main_loop xdamage_event_base xrandr_event_base ximg
                                    shminfo' root' w5)))
          else main_loop xdamage_event_base xrandr_event_base ximg shminfo root
                 (called CursorEvent w1))"
  by pat_completeness auto
termination
proof (relation "measure (\<lambda>(db, rb, ximg, shminfo, root, w). pending w)", goal_cases)
  case 1
  show ?case by simp
next
  case (2 db rb ximg shminfo root w x y b xa ya ba xb yb)
  then have n: "XNextEvent w = (Inr b, y)"
    and r: "render_root root ximg (called DamageSubtract y) = (Inr ba, xb, yb)"
    by (simp_all add: prod_eq_iff)
  from render_root_pending [OF r] XNextEvent_pending [OF n] show ?case by simp
next
  case (3 db rb ximg shminfo root w x y b xa ya ba xb yb bb xc yc xd yd xe ye)
  then have n: "XNextEvent w = (Inr b, y)"
    and s: "sync_displays (Some Handle) (Some Handle) rb (snd (XRRUpdateConfiguration b y))
              = (Inr ba, ya)"
    and rs: "resize_shm ximg shminfo ya = (Inr bb, xc, yc)"
    and rm: "resize_mbuffer root yc = (xd, xe, ye)"
    by (simp_all add: prod_eq_iff)
  have u: "pending (snd (XRRUpdateConfiguration b y)) = pending y"
    by (cases "XRRUpdateConfiguration b y") (simp add: XRRUpdateConfiguration_pending)
  from XNextEvent_pending [OF n] u sync_displays_pending [OF s]
    resize_shm_pending [OF rs] resize_mbuffer_pending [OF rm]
  show ?case by simp
next
  case (4 db rb ximg shminfo root w x y b)
  then have n: "XNextEvent w = (Inr b, y)" by (simp add: prod_eq_iff)
  from XNextEvent_pending [OF n] show ?case by simp
qed

declare main_loop.simps [simp del]

text \<open>What the environment answers during start-up.\<close>

record startup =
  init_threads_ok :: bool
  open_display_ok :: bool
  shm_extension :: bool
  damage_extension :: bool
  randr_extension :: bool
  xdamage_event_base :: int
  xrandr_event_base :: int
  mopen_display_ok :: bool
  create_buffer_ok :: bool
  cursor_init_ok :: bool

text \<open>The code from the label \<^verbatim>\<open>cleanup_1\<close> to the end of \<^verbatim>\<open>main\<close>.\<close>

definition cleanup_1 :: "int \<Rightarrow> world \<Rightarrow> (fault + int) \<times> world" where
  "cleanup_1 err w = (Inr err, w)"

definition main :: "startup \<Rightarrow> world \<Rightarrow> (fault + int) \<times> world" where
  "main st w =
     (if \<not> init_threads_ok st then (Inr (- 1), w)
      else if \<not> open_display_ok st then (Inr (- 1), w)
      else if \<not> shm_extension st then (Inr (- 1), w)
      else if \<not> damage_extension st then (Inr (- 1), w)
      else if \<not> randr_extension st then (Inr (- 1), w)
      else if \<not> mopen_display_ok st then (Inr (- 1), w)
      else
        (case sync_displays (Some Handle) (Some Handle) (xrandr_event_base st) w of
           (Inl f, w1) \<Rightarrow> (Inl f, w1)
         | (Inr _, w1) \<Rightarrow>
             (case XDisplayWidth w1 of
                (xwidth, w2) \<Rightarrow>
                  (case XDisplayHeight w2 of
                     (xheight, w3) \<Rightarrow>
                       (case MCreateBuffer (create_buffer_ok st)
                               \<lparr>buf_width = xwidth, buf_height = xheight, stride = 0, bits = []\<rparr>
                               w3 of
                          (r, root, w4) \<Rightarrow>
                            if r < 0 then cleanup_1 (- 1) w4
                            else if \<not> cursor_init_ok st then cleanup_1 (- 1) w4
                            else
                              (case xshm_init \<lparr>shmid = 0, shmaddr = 0, readOnly = False\<rparr> w4 of
                                 (None, shminfo, w5) \<Rightarrow> cleanup_1 (- 1) w5
                               | (Some ximg, shminfo, w5) \<Rightarrow>
                                   (case main_loop (xdamage_event_base st) (xrandr_event_base st)
                                           ximg shminfo root w5 of
                                      (Inl f, shminfo', root', w6) \<Rightarrow> (Inl f, w6)
                                    | (Inr _, shminfo', root', w6) \<Rightarrow>
                                        (case xshm_cleanup shminfo' ximg w6 of
                                           (Inl f, w7) \<Rightarrow> (Inl f, w7)
                                         | (Inr _, w7) \<Rightarrow> cleanup_1 0 w7))))))))"

subsection \<open>Notions used to state the properties\<close>

text \<open>The outcome of the confirmation wait as a function of the screen-change
  notifications that arrive, for a bound of \<open>k\<close> notifications: success at the first one
  that matches the mode, failure when the bound is used up, and no return when the
  notifications run out first.\<close>

fun confirmation_outcome :: "XRRModeInfo \<Rightarrow> nat \<Rightarrow> XEvent list \<Rightarrow> fault + int" where
  "confirmation_outcome mode 0 ns = Inr (- 1)"
| "confirmation_outcome mode (Suc k) [] = Inl Blocks"
| "confirmation_outcome mode (Suc k) (ev # ns) =
     (if ev_width ev = mode_width mode \<and> ev_height ev = mode_height mode
      then (if ev_root_known ev then Inr 0 else Inr (- 1))
      else confirmation_outcome mode k ns)"

text \<open>Whether byte \<open>i\<close> of the destination lies in the part of some row
  \<open>y0 \<le> y < row_end\<close> that the loop writes, for \<open>b\<close> bytes per destination line and
  \<open>n\<close> bytes copied per row.\<close>

definition in_rows :: "nat \<Rightarrow> nat \<Rightarrow> uint32_t \<Rightarrow> uint32_t \<Rightarrow> nat \<Rightarrow> bool" where
  "in_rows b n y0 row_end i \<longleftrightarrow>
     (\<exists>y. y0 \<le> y \<and> y < row_end \<and> unat y * b \<le> i \<and> i < unat y * b + n)"

text \<open>Classes of calls: those the confirmation wait makes; those made while the grab is
  held (anything but a grab or a release); those that inspect or change the screen
  configuration (reading the display size, fetching screen resources or a controller,
  applying a mode, setting the screen size); and those the program makes before it grabs
  the server.  Refreshing Xlib's cache from a notification that has already arrived
  belongs to the last class: it asks the server nothing and changes nothing there.\<close>

fun poll_call :: "xcall \<Rightarrow> bool" where
  "poll_call IfEvent = True"
| "poll_call (UpdateConfiguration a b) = True"
| "poll_call _ = False"

fun held_call :: "xcall \<Rightarrow> bool" where
  "held_call GrabServer = False"
| "held_call UngrabServer = False"
| "held_call _ = True"

fun geometry_call :: "xcall \<Rightarrow> bool" where
  "geometry_call DisplayWidth = True"
| "geometry_call DisplayHeight = True"
| "geometry_call DisplayHeightMM = True"
| "geometry_call GetScreenResources = True"
| "geometry_call (GetCrtcInfo c) = True"
| "geometry_call (SetCrtcConfig c m) = True"
| "geometry_call (SetScreenSize a b) = True"
| "geometry_call _ = False"

fun pre_grab_call :: "xcall \<Rightarrow> bool" where
  "pre_grab_call GetDisplayInfo = True"
| "pre_grab_call CheckIfEvent = True"
| "pre_grab_call (UpdateConfiguration a b) = True"
| "pre_grab_call _ = False"

text \<open>Whether a trace contains a wait for an event made while the server is grabbed.\<close>

fun waits_under_grab :: "bool \<Rightarrow> xcall list \<Rightarrow> bool" where
  "waits_under_grab held [] = False"
| "waits_under_grab held (c # cs) =
     (if c = GrabServer then waits_under_grab True cs
      else if c = UngrabServer then waits_under_grab False cs
      else if c = IfEvent then held \<or> waits_under_grab held cs
      else waits_under_grab held cs)"

subsection \<open>Example inputs\<close>

text \<open>A 2 by 2 image of 32-bit pixels with two bytes of padding per line, and a buffer
  whose lines are 12 bytes long.\<close>

definition ex_ximg :: XImage where
  "ex_ximg = \<lparr>width = 2, height = 2, bytes_per_line = 10, bits_per_pixel = 32,
     data = [1, 2, 3, 4, 5, 6, 7, 8, 9, 10, 11, 12, 13, 14, 15, 16, 17, 18, 19, 20]\<rparr>"

definition ex_buf :: MBuffer where
  "ex_buf = \<lparr>buf_width = 2, buf_height = 2, stride = 3, bits = replicate 24 0\<rparr>"

text \<open>A 1920 by 1080 screen with two modes and one controller; the destination asks for
  1280 by 720 and no event is on its way.  The worlds after it differ in the events that
  arrive or in what the destination asks for.\<close>

definition screen_change :: "int \<Rightarrow> c_int \<Rightarrow> c_int \<Rightarrow> XEvent" where
  "screen_change base a b =
     \<lparr>ev_type = base + RRScreenChangeNotify, ev_width = a, ev_height = b, ev_root_known = True\<rparr>"

definition hd_modes :: XRRScreenResources where
  "hd_modes = \<lparr>modes = [\<lparr>mode_id = 1, mode_width = 1920, mode_height = 1080\<rparr>,
                        \<lparr>mode_id = 2, mode_width = 1280, mode_height = 720\<rparr>],
               crtcs = [7]\<rparr>"

definition quiet_world :: world where
  "quiet_world =
     \<lparr>scr_width = 1920, scr_height = 1080, queue = [], incoming = [], calls = [],
      ximages = Map.empty, segments = Map.empty, mappings = Map.empty,
      server_attached = [], locked = False,
      display_info = Some (1280, 720), screen_resources = Some hd_modes,
      crtc_info_ok = True, set_crtc_config_ok = True,
      lock_result = 0, unlock_result = 0, get_image_ok = True, screen_contents = [],
      shm_script = [], xshm_detach_ok = True, resize_buffer_ok = True,
      buffer_stride = (\<lambda>a. a)\<rparr>"

definition confirming_world :: world where
  "confirming_world = quiet_world\<lparr>incoming := [screen_change 89 1280 720]\<rparr>"

definition unrelated_world :: world where
  "unrelated_world = quiet_world\<lparr>incoming := [screen_change 89 800 600,
      screen_change 89 800 600, screen_change 89 800 600, screen_change 89 1280 720]\<rparr>"

definition unmatched_world :: world where
  "unmatched_world = quiet_world\<lparr>display_info := Some (1024, 768)\<rparr>"

definition in_sync_world :: world where
  "in_sync_world = quiet_world\<lparr>display_info := Some (1920, 1080)\<rparr>"

definition refused_world :: world where
  "refused_world = quiet_world\<lparr>set_crtc_config_ok := False\<rparr>"

text \<open>A start-up in which every step succeeds.\<close>

definition good_startup :: startup where
  "good_startup = \<lparr>init_threads_ok = True, open_display_ok = True, shm_extension = True,
     damage_extension = True, randr_extension = True, xdamage_event_base = 91,
     xrandr_event_base = 89, mopen_display_ok = True, create_buffer_ok = True,
     cursor_init_ok = True\<rparr>"

definition image_at :: "nat \<Rightarrow> shm_answers" where
  "image_at p = \<lparr>create_image = Some (p, 16, 32), shmget_result = 5,
                 shmat_result = 4096, attach_ok = True\<rparr>"

text \<open>A 4 by 2 screen; a notification that it is now 2 by 2 arrives, the destination's
  geometry is not available, the image is rebuilt at the address the old one had, and
  the buffer cannot be resized.\<close>

definition resize_failure_world :: world where
  "resize_failure_world =
     quiet_world\<lparr>scr_width := 4, scr_height := 2, display_info := None,
                 incoming := [screen_change 89 2 2],
                 shm_script := [image_at 1, image_at 1], resize_buffer_ok := False\<rparr>"

text \<open>A 4 by 2 screen with an image and a buffer of that size.\<close>

definition tiny_world :: world where
  "tiny_world = quiet_world\<lparr>scr_width := 4, scr_height := 2\<rparr>"

definition tiny_ximg :: XImage where
  "tiny_ximg = \<lparr>width = 4, height = 2, bytes_per_line = 16, bits_per_pixel = 32,
                 data = replicate 32 7\<rparr>"

definition tiny_buf :: MBuffer where
  "tiny_buf = \<lparr>buf_width = 4, buf_height = 2, stride = 4, bits = replicate 32 0\<rparr>"

definition no_shminfo :: XShmSegmentInfo where
  "no_shminfo = \<lparr>shmid = 0, shmaddr = 0, readOnly = False\<rparr>"

definition tiny_shminfo :: XShmSegmentInfo where
  "tiny_shminfo = \<lparr>shmid = 5, shmaddr = 4096, readOnly = False\<rparr>"

text \<open>The fetch from the server fails and so does the unlock.\<close>

definition stale_world :: world where
  "stale_world = tiny_world\<lparr>ximages := [1 \<mapsto> tiny_ximg], get_image_ok := False,
                              unlock_result := - 1\<rparr>"

text \<open>\<^verbatim>\<open>shmget\<close> gives segment 5 and \<^verbatim>\<open>shmat\<close> fails; \<^verbatim>\<open>XShmAttach\<close> fails in the
  first world and succeeds in the second.\<close>

definition attach_failure_world :: world where
  "attach_failure_world =
     tiny_world\<lparr>shm_script := [\<lparr>create_image = Some (1, 16, 32), shmget_result = 5,
                                  shmat_result = - 1, attach_ok = False\<rparr>]\<rparr>"

definition attach_unnoticed_world :: world where
  "attach_unnoticed_world =
     tiny_world\<lparr>shm_script := [\<lparr>create_image = Some (1, 16, 32), shmget_result = 5,
                                  shmat_result = - 1, attach_ok = True\<rparr>]\<rparr>"

text \<open>The image at address 1 was made for a 4 by 2 screen, the screen is now 2 by 2, and
  the allocator places the next image at address 2.\<close>

definition moved_image_world :: world where
  "moved_image_world =
     tiny_world\<lparr>scr_width := 2, ximages := [1 \<mapsto> tiny_ximg], segments := [5 \<mapsto> 32],
                 mappings := [4096 \<mapsto> 5], server_attached := [5],
                 shm_script := [image_at 2]\<rparr>"

text \<open>As \<open>resize_failure_world\<close>, but the buffer can be resized and the image cannot be
  rebuilt.\<close>

definition rebuild_failure_world :: world where
  "rebuild_failure_world =
     resize_failure_world\<lparr>shm_script := [image_at 1], resize_buffer_ok := True\<rparr>"

section \<open>Properties\<close>

subsection \<open>Row copy\<close>

lemma memcpy_Inr:
  assumes "memcpy dst d src s n = Inr dst'"
  shows "d + n \<le> length dst" and "s + n \<le> length src" and "length dst' = length dst"
    and "\<And>i. i < length dst \<Longrightarrow>
           dst' ! i = (if d \<le> i \<and> i < d + n then src ! (s + (i - d)) else dst ! i)"
proof -
  from assms have b: "d + n \<le> length dst" "s + n \<le> length src"
    and eq: "dst' = take d dst @ take n (drop s src) @ drop (d + n) dst"
    by (auto simp: memcpy_def split: if_splits)
  show "d + n \<le> length dst" "s + n \<le> length src" by (rule b)+
  from b show "length dst' = length dst" by (simp add: eq)
  fix i assume "i < length dst"
  with b show "dst' ! i = (if d \<le> i \<and> i < d + n then src ! (s + (i - d)) else dst ! i)"
    by (auto simp: eq nth_append)
qed

lemma word_succ_unat:
  fixes y r :: "32 word"
  assumes "y < r"
  shows "unat (y + 1) = Suc (unat y)"
proof -
  from assms have "y + 1 \<noteq> 0"
    by (metis eq_neg_iff_add_eq_0 word_order.extremum_strict)
  then show ?thesis using unatSuc [of y] by (simp add: add.commute)
qed

lemma row_offset_nowrap:
  fixes y r b :: "32 word"
  assumes "y < r" and "unat r * unat b < 2 ^ 32"
  shows "unat (y * b) = unat y * unat b"
proof -
  from assms(1) have "unat y \<le> unat r" by (simp add: word_less_nat_alt)
  then have "unat y * unat b \<le> unat r * unat b" by (rule mult_le_mono1)
  then have "unat y * unat b < 2 ^ 32" using assms(2) by (rule le_less_trans)
  then have "unat y * unat b < 2 ^ LENGTH(32)" by simp
  then show ?thesis by (simp only: unat_mult_lem [THEN iffD1])
qed

lemma copy_rows_loop_inv:
  assumes "copy_rows_loop dst ximg bpl bpp y0 row_end = Inr dst'"
    and "unat row_end * unat bpl < 2 ^ 32"
    and "unat (width ximg * bpp) \<le> unat bpl"
  shows "length dst' = length dst
     \<and> (\<forall>y. y0 \<le> y \<and> y < row_end \<longrightarrow>
           unat y * unat bpl + unat (width ximg * bpp) \<le> length dst
         \<and> unat (y * bytes_per_line ximg) + unat (width ximg * bpp) \<le> length (data ximg)
         \<and> (\<forall>j < unat (width ximg * bpp).
               dst' ! (unat y * unat bpl + j) = data ximg ! (unat (y * bytes_per_line ximg) + j)))
     \<and> (\<forall>i < length dst.
           \<not> in_rows (unat bpl) (unat (width ximg * bpp)) y0 row_end i \<longrightarrow> dst' ! i = dst ! i)"
  using assms
proof (induction dst ximg bpl bpp y0 row_end arbitrary: dst' rule: copy_rows_loop.induct)
  case (1 dst ximg bpl bpp y0 row_end)
  let ?n = "unat (width ximg * bpp)"
  let ?B = "unat bpl"
  show ?case
  proof (cases "y0 < row_end")
    case False
    with "1.prems"(1) have "dst' = dst" by (subst (asm) copy_rows_loop.simps) simp
    with False show ?thesis by auto
  next
    case True
    from True "1.prems"(2) have off: "unat (y0 * bpl) = unat y0 * ?B"
      by (rule row_offset_nowrap)
    from True have suc: "unat (y0 + 1) = Suc (unat y0)" by (rule word_succ_unat)
    from True "1.prems"(1) obtain dst1 where
      m: "memcpy dst (unat y0 * ?B) (data ximg) (unat (y0 * bytes_per_line ximg)) ?n = Inr dst1"
      and rest: "copy_rows_loop dst1 ximg bpl bpp (y0 + 1) row_end = Inr dst'"
      by (subst (asm) copy_rows_loop.simps) (auto simp: off split: sum.splits)
    note mi = memcpy_Inr [OF m]
    have m': "memcpy dst (unat (y0 * bpl)) (data ximg) (unat (y0 * bytes_per_line ximg)) ?n = Inr dst1"
      using m by (simp add: off)
    note IH = "1.IH" [OF True m' rest "1.prems"(2) "1.prems"(3)]
    from IH have len: "length dst' = length dst1" by simp
    from IH have later: "\<And>y j. y0 + 1 \<le> y \<Longrightarrow> y < row_end \<Longrightarrow>
         unat y * ?B + ?n \<le> length dst1
       \<and> unat (y * bytes_per_line ximg) + ?n \<le> length (data ximg)
       \<and> (\<forall>j < ?n. dst' ! (unat y * ?B + j) = data ximg ! (unat (y * bytes_per_line ximg) + j))"
      by blast
    from IH have frame: "\<And>i. i < length dst1 \<Longrightarrow>
         \<not> in_rows ?B ?n (y0 + 1) row_end i \<Longrightarrow> dst' ! i = dst1 ! i"
      by blast
    have above: "unat y0 * ?B + ?n \<le> unat y * ?B" if "y0 + 1 \<le> y" for y
    proof -
      from that have "Suc (unat y0) \<le> unat y" by (simp add: word_le_nat_alt suc)
      then have "Suc (unat y0) * ?B \<le> unat y * ?B" by (rule mult_le_mono1)
      with "1.prems"(3) show ?thesis by simp
    qed
    have cases_y: "y = y0 \<or> y0 + 1 \<le> y" if "y0 \<le> y" for y
    proof -
      from that have "unat y0 \<le> unat y" by (simp add: word_le_nat_alt)
      then have "unat y = unat y0 \<or> unat (y0 + 1) \<le> unat y" by (auto simp: suc)
      then show ?thesis by (auto simp: word_le_nat_alt word_unat_eq_iff)
    qed
    have notin: "\<not> in_rows ?B ?n (y0 + 1) row_end i" if "i < unat y0 * ?B + ?n" for i
      using that above by (fastforce simp: in_rows_def)
    have split: "in_rows ?B ?n y0 row_end i \<longleftrightarrow>
        (unat y0 * ?B \<le> i \<and> i < unat y0 * ?B + ?n) \<or> in_rows ?B ?n (y0 + 1) row_end i" for i
    proof
      assume "in_rows ?B ?n y0 row_end i"
      then obtain y where y: "y0 \<le> y" "y < row_end" "unat y * ?B \<le> i" "i < unat y * ?B + ?n"
        by (auto simp: in_rows_def)
      from cases_y [OF y(1)] y show "(unat y0 * ?B \<le> i \<and> i < unat y0 * ?B + ?n) \<or> in_rows ?B ?n (y0 + 1) row_end i"
        by (auto simp: in_rows_def)
    next
      assume r: "(unat y0 * ?B \<le> i \<and> i < unat y0 * ?B + ?n) \<or> in_rows ?B ?n (y0 + 1) row_end i"
      have "y0 \<le> y0 + 1" using suc by (simp add: word_le_nat_alt)
      then have "\<And>y. y0 + 1 \<le> y \<Longrightarrow> y0 \<le> y" by simp
      with r True show "in_rows ?B ?n y0 row_end i"
        by (auto simp: in_rows_def)
    qed
    have row0: "dst' ! (unat y0 * ?B + j) = data ximg ! (unat (y0 * bytes_per_line ximg) + j)"
      if "j < ?n" for j
    proof -
      from that mi(1) have lt: "unat y0 * ?B + j < length dst1" by (simp add: mi(3))
      from that have "dst' ! (unat y0 * ?B + j) = dst1 ! (unat y0 * ?B + j)"
        by (intro frame lt notin) simp
      also from that lt have "\<dots> = data ximg ! (unat (y0 * bytes_per_line ximg) + j)"
        by (simp add: mi(4) mi(3))
      finally show ?thesis .
    qed
    have rows: "unat y * ?B + ?n \<le> length dst
         \<and> unat (y * bytes_per_line ximg) + ?n \<le> length (data ximg)
         \<and> (\<forall>j < ?n. dst' ! (unat y * ?B + j) = data ximg ! (unat (y * bytes_per_line ximg) + j))"
      if "y0 \<le> y" "y < row_end" for y
      using cases_y [OF that(1)]
    proof
      assume "y = y0"
      with mi(1,2) row0 show ?thesis by simp
    next
      assume "y0 + 1 \<le> y"
      from later [OF this that(2)] show ?thesis by (simp add: mi(3))
    qed
    have fr: "dst' ! i = dst ! i" if "i < length dst" "\<not> in_rows ?B ?n y0 row_end i" for i
    proof -
      from that(2) have a: "\<not> (unat y0 * ?B \<le> i \<and> i < unat y0 * ?B + ?n)"
        and b: "\<not> in_rows ?B ?n (y0 + 1) row_end i"
        by (simp_all add: split)
      from that(1) b have "dst' ! i = dst1 ! i" by (intro frame) (simp_all add: mi(3))
      also from that(1) a have "\<dots> = dst ! i" using mi(4) [of i] by auto
      finally show ?thesis .
    qed
    from len rows fr show ?thesis by (simp add: mi(3))
  qed
qed

lemma copy_rows_loop_defined:
  assumes "\<forall>y. y0 \<le> y \<and> y < row_end \<longrightarrow>
             unat (y * bpl) + unat (width ximg * bpp) \<le> length dst
           \<and> unat (y * bytes_per_line ximg) + unat (width ximg * bpp) \<le> length (data ximg)"
  shows "\<exists>dst'. copy_rows_loop dst ximg bpl bpp y0 row_end = Inr dst'"
  using assms
proof (induction dst ximg bpl bpp y0 row_end rule: copy_rows_loop.induct)
  case (1 dst ximg bpl bpp y0 row_end)
  show ?case
  proof (cases "y0 < row_end")
    case False
    then show ?thesis by (subst copy_rows_loop.simps) simp
  next
    case True
    let ?n = "unat (width ximg * bpp)"
    from True "1.prems" have b: "unat (y0 * bpl) + ?n \<le> length dst"
      "unat (y0 * bytes_per_line ximg) + ?n \<le> length (data ximg)"
      by auto
    then obtain dst1 where
      m: "memcpy dst (unat (y0 * bpl)) (data ximg) (unat (y0 * bytes_per_line ximg)) ?n = Inr dst1"
      by (auto simp: memcpy_def)
    have len: "length dst1 = length dst" by (rule memcpy_Inr(3) [OF m])
    from True have "unat (y0 + 1) = Suc (unat y0)" by (rule word_succ_unat)
    then have "y0 \<le> y0 + 1" by (simp add: word_le_nat_alt)
    then have up: "\<And>y. y0 + 1 \<le> y \<Longrightarrow> y0 \<le> y" by simp
    have "\<exists>dst'. copy_rows_loop dst1 ximg bpl bpp (y0 + 1) row_end = Inr dst'"
      using "1.prems" up by (intro "1.IH" [OF True m]) (simp add: len)
    with True m show ?thesis by (subst copy_rows_loop.simps) simp
  qed
qed

lemma sdiv8: "(0::int) \<le> k \<Longrightarrow> k sdiv 8 = k div 8"
  by (cases "k = 0") (simp_all add: signed_divide_int_def)

lemma bytes_per_pixel_nonneg:
  fixes b :: "32 word"
  assumes "0 \<le> sint b"
  shows "unat (word_of_int (sint b sdiv 8) :: 32 word) = unat b div 8"
proof -
  have "sint b < 2 ^ 32" using sint_lt [of b] by simp
  with assms have "take_bit 32 (sint b) = sint b" by (simp add: take_bit_int_eq_self)
  then have su: "sint b = uint b" using uint_sint [of b] by simp
  have "sint b sdiv 8 = uint b div 8" using assms by (simp add: sdiv8 su)
  then have "(word_of_int (sint b sdiv 8) :: 32 word) = b div 8"
    by (simp add: word_div_def)
  then show ?thesis by (simp add: unat_div)
qed

text \<open>Under the side conditions of the row-copy theorem the 32-bit quantities the code
  computes are the exact products.\<close>

lemma copy_quantities_exact:
  fixes row_start row_end :: uint32_t
  assumes bpp: "0 \<le> sint (bits_per_pixel ximg)"
    and fit: "unat (width ximg) * (unat (bits_per_pixel ximg) div 8) \<le> unat (stride buf) * 4"
    and dst_nowrap: "unat row_end * (unat (stride buf) * 4) < 2 ^ 32"
    and ne: "row_start < row_end"
  shows "unat (stride buf * 4) = unat (stride buf) * 4"
    and "unat (width ximg * word_of_int (sint (bits_per_pixel ximg) sdiv 8))
           = unat (width ximg) * (unat (bits_per_pixel ximg) div 8)"
proof -
  from ne have "0 < unat row_end"
    by (metis not_less0 word_less_nat_alt zero_less_iff_neq_zero)
  then have "unat (stride buf) * 4 \<le> unat row_end * (unat (stride buf) * 4)" by simp
  then have s4: "unat (stride buf) * 4 < 2 ^ 32" using dst_nowrap by (rule le_less_trans)
  then have "unat (stride buf) * unat (4 :: uint32_t) < 2 ^ LENGTH(32)" by simp
  then have "unat (stride buf * 4) = unat (stride buf) * unat (4 :: uint32_t)"
    by (simp only: unat_mult_lem [THEN iffD1])
  then show "unat (stride buf * 4) = unat (stride buf) * 4" by simp
  let ?b = "word_of_int (sint (bits_per_pixel ximg) sdiv 8) :: uint32_t"
  have ub: "unat ?b = unat (bits_per_pixel ximg) div 8"
    using bpp by (rule bytes_per_pixel_nonneg)
  from fit s4 have "unat (width ximg) * unat ?b < 2 ^ LENGTH(32)" by (simp add: ub)
  then have "unat (width ximg * ?b) = unat (width ximg) * unat ?b"
    by (simp only: unat_mult_lem [THEN iffD1])
  then show "unat (width ximg * ?b) = unat (width ximg) * (unat (bits_per_pixel ximg) div 8)"
    by (simp add: ub)
qed

text \<open>
  C1.  The copy works on a buffer and an image whose geometry the caller has set up: the
  image has a non-negative \<^verbatim>\<open>bits_per_pixel\<close>, a line of the destination
  (\<^verbatim>\<open>stride * 4\<close> bytes) holds a row of pixels (\<^verbatim>\<open>width\<close> times
  \<^verbatim>\<open>bits_per_pixel / 8\<close> bytes), and the row offsets up to \<^verbatim>\<open>row_end\<close> fit in the
  32 bits the code computes them in, for either stride.  For every such pair of strides,
  equal or not, and every row range: the copy is defined whenever every row of the range
  lies inside both buffers, and after any defined copy the status is 0 and, for every
  row \<open>y\<close> of the range, the bytes of the destination at offset \<open>y\<close> times the
  destination's bytes per line are exactly the \<^verbatim>\<open>width\<close> times bytes-per-pixel
  contiguous bytes found in the source at offset \<open>y\<close> times the source's
  \<^verbatim>\<open>bytes_per_line\<close>.  Every other byte of the destination is left as it was, so
  nothing of the source's padding at the end of a line is copied.
\<close>

theorem copy_rows_byte_exact:
  fixes row_start row_end :: uint32_t
  assumes bpp: "0 \<le> sint (bits_per_pixel ximg)"
    and fit: "unat (width ximg) * (unat (bits_per_pixel ximg) div 8) \<le> unat (stride buf) * 4"
    and dst_nowrap: "unat row_end * (unat (stride buf) * 4) < 2 ^ 32"
    and src_nowrap: "unat row_end * unat (bytes_per_line ximg) < 2 ^ 32"
  shows
    "((\<forall>y. row_start \<le> y \<and> y < row_end \<longrightarrow>
          unat y * (unat (stride buf) * 4)
            + unat (width ximg) * (unat (bits_per_pixel ximg) div 8) \<le> length (bits buf)
        \<and> unat y * unat (bytes_per_line ximg)
            + unat (width ximg) * (unat (bits_per_pixel ximg) div 8) \<le> length (data ximg))
       \<longrightarrow> (\<exists>buf'. copy_ximg_rows_to_buffer_mlocked buf ximg row_start row_end = Inr (0, buf')))
   \<and> (\<forall>r buf'. copy_ximg_rows_to_buffer_mlocked buf ximg row_start row_end = Inr (r, buf') \<longrightarrow>
         r = 0 \<and> length (bits buf') = length (bits buf)
       \<and> (\<forall>y. row_start \<le> y \<and> y < row_end \<longrightarrow>
             unat y * (unat (stride buf) * 4)
               + unat (width ximg) * (unat (bits_per_pixel ximg) div 8) \<le> length (bits buf')
           \<and> unat y * unat (bytes_per_line ximg)
               + unat (width ximg) * (unat (bits_per_pixel ximg) div 8) \<le> length (data ximg)
           \<and> (\<forall>j < unat (width ximg) * (unat (bits_per_pixel ximg) div 8).
                 bits buf' ! (unat y * (unat (stride buf) * 4) + j)
                   = data ximg ! (unat y * unat (bytes_per_line ximg) + j)))
       \<and> (\<forall>i < length (bits buf).
             \<not> in_rows (unat (stride buf) * 4)
                  (unat (width ximg) * (unat (bits_per_pixel ximg) div 8)) row_start row_end i
             \<longrightarrow> bits buf' ! i = bits buf ! i))"
proof (cases "row_start < row_end")
  case False
  then have "copy_ximg_rows_to_buffer_mlocked buf ximg row_start row_end = Inr (0, buf)"
    by (simp add: copy_ximg_rows_to_buffer_mlocked_def Let_def copy_rows_loop.simps [of _ _ _ _ row_start])
  moreover from False have "\<And>y. \<not> (row_start \<le> y \<and> y < row_end)" by auto
  ultimately show ?thesis by auto
next
  case True
  let ?bpl = "stride buf * 4"
  let ?bpp = "word_of_int (sint (bits_per_pixel ximg) sdiv 8) :: uint32_t"
  let ?n = "unat (width ximg) * (unat (bits_per_pixel ximg) div 8)"
  let ?B = "unat (stride buf) * 4"
  note q = copy_quantities_exact [OF bpp fit dst_nowrap True]
  have do: "unat (y * ?bpl) = unat y * ?B" if "y < row_end" for y
    using row_offset_nowrap [of y row_end ?bpl] that dst_nowrap by (simp add: q(1))
  have so: "unat (y * bytes_per_line ximg) = unat y * unat (bytes_per_line ximg)"
    if "y < row_end" for y
    using that src_nowrap by (rule row_offset_nowrap)
  have defined: "\<exists>buf'. copy_ximg_rows_to_buffer_mlocked buf ximg row_start row_end = Inr (0, buf')"
    if b: "\<forall>y. row_start \<le> y \<and> y < row_end \<longrightarrow>
             unat y * ?B + ?n \<le> length (bits buf)
           \<and> unat y * unat (bytes_per_line ximg) + ?n \<le> length (data ximg)"
  proof -
    from b have "\<forall>y. row_start \<le> y \<and> y < row_end \<longrightarrow>
             unat (y * ?bpl) + unat (width ximg * ?bpp) \<le> length (bits buf)
           \<and> unat (y * bytes_per_line ximg) + unat (width ximg * ?bpp) \<le> length (data ximg)"
      by (simp add: do so q(2))
    from copy_rows_loop_defined [OF this] show ?thesis
      by (auto simp: copy_ximg_rows_to_buffer_mlocked_def Let_def)
  qed
  have result: "r = 0 \<and> length (bits buf') = length (bits buf)
       \<and> (\<forall>y. row_start \<le> y \<and> y < row_end \<longrightarrow>
             unat y * ?B + ?n \<le> length (bits buf')
           \<and> unat y * unat (bytes_per_line ximg) + ?n \<le> length (data ximg)
           \<and> (\<forall>j < ?n. bits buf' ! (unat y * ?B + j)
                   = data ximg ! (unat y * unat (bytes_per_line ximg) + j)))
       \<and> (\<forall>i < length (bits buf).
             \<not> in_rows ?B ?n row_start row_end i \<longrightarrow> bits buf' ! i = bits buf ! i)"
    if ret: "copy_ximg_rows_to_buffer_mlocked buf ximg row_start row_end = Inr (r, buf')"
    for r buf'
  proof -
    from ret obtain b where
      l: "copy_rows_loop (bits buf) ximg ?bpl ?bpp row_start row_end = Inr b"
      and r: "r = 0" and buf': "buf' = buf\<lparr>bits := b\<rparr>"
      by (auto simp: copy_ximg_rows_to_buffer_mlocked_def Let_def split: sum.splits)
    have nw: "unat row_end * unat ?bpl < 2 ^ 32" using dst_nowrap by (simp add: q(1))
    have ft: "unat (width ximg * ?bpp) \<le> unat ?bpl" using fit by (simp add: q)
    note inv = copy_rows_loop_inv [OF l nw ft, unfolded q]
    from inv have len: "length b = length (bits buf)" by simp
    from inv have rows: "\<And>y. row_start \<le> y \<Longrightarrow> y < row_end \<Longrightarrow>
           unat y * ?B + ?n \<le> length (bits buf)
         \<and> unat (y * bytes_per_line ximg) + ?n \<le> length (data ximg)
         \<and> (\<forall>j < ?n. b ! (unat y * ?B + j) = data ximg ! (unat (y * bytes_per_line ximg) + j))"
      by blast
    from inv have frame: "\<forall>i < length (bits buf).
           \<not> in_rows ?B ?n row_start row_end i \<longrightarrow> b ! i = bits buf ! i"
      by blast
    have rows': "unat y * ?B + ?n \<le> length (bits buf')
           \<and> unat y * unat (bytes_per_line ximg) + ?n \<le> length (data ximg)
           \<and> (\<forall>j < ?n. bits buf' ! (unat y * ?B + j)
                   = data ximg ! (unat y * unat (bytes_per_line ximg) + j))"
      if "row_start \<le> y" "y < row_end" for y
      using rows [OF that] by (simp add: so [OF that(2)] buf' len)
    from r len rows' frame show ?thesis by (simp add: buf')
  qed
  from defined result show ?thesis by blast
qed

lemma ex_copy_result:
  "copy_ximg_rows_to_buffer_mlocked ex_buf ex_ximg 0 2 =
     Inr (0, ex_buf\<lparr>bits := [1, 2, 3, 4, 5, 6, 7, 8, 0, 0, 0, 0,
                              11, 12, 13, 14, 15, 16, 17, 18, 0, 0, 0, 0]\<rparr>)"
  by code_simp

theorem copy_rows_byte_exact_witness:
  "(\<exists>buf'. copy_ximg_rows_to_buffer_mlocked ex_buf ex_ximg 0 2 = Inr (0, buf')
      \<and> (\<forall>j < 8. bits buf' ! (12 + j) = data ex_ximg ! (10 + j))
      \<and> bits buf' ! 8 = bits ex_buf ! 8)"
proof -
  have h1: "0 \<le> sint (bits_per_pixel ex_ximg)" by (simp add: ex_ximg_def)
  have h2: "unat (width ex_ximg) * (unat (bits_per_pixel ex_ximg) div 8) \<le> unat (stride ex_buf) * 4"
    by (simp add: ex_ximg_def ex_buf_def)
  have h3: "unat (2 :: uint32_t) * (unat (stride ex_buf) * 4) < 2 ^ 32"
    by (simp add: ex_buf_def)
  have h4: "unat (2 :: uint32_t) * unat (bytes_per_line ex_ximg) < 2 ^ 32"
    by (simp add: ex_ximg_def)
  note t = copy_rows_byte_exact [OF h1 h2 h3 h4, of 0, THEN conjunct2, rule_format, OF ex_copy_result]
  have rows: "\<forall>j < 8. bits (ex_buf\<lparr>bits := [1, 2, 3, 4, 5, 6, 7, 8, 0, 0, 0, 0,
                              11, 12, 13, 14, 15, 16, 17, 18, 0, 0, 0, 0]\<rparr>) ! (12 + j) = data ex_ximg ! (10 + j)"
    using t [THEN conjunct2, THEN conjunct2, THEN conjunct1, rule_format, of 1]
    by (simp add: ex_ximg_def ex_buf_def)
  have "\<not> in_rows 12 8 (0 :: uint32_t) 2 8"
  proof -
    have "y = 0 \<or> y = 1" if "y < 2" for y :: uint32_t
      using that by (auto simp: word_less_nat_alt word_unat_eq_iff)
    then show ?thesis by (auto simp: in_rows_def)
  qed
  then have frame: "bits (ex_buf\<lparr>bits := [1, 2, 3, 4, 5, 6, 7, 8, 0, 0, 0, 0,
                              11, 12, 13, 14, 15, 16, 17, 18, 0, 0, 0, 0]\<rparr>) ! 8 = bits ex_buf ! 8"
    using t [THEN conjunct2, THEN conjunct2, THEN conjunct2, rule_format, of 8]
    by (simp add: ex_ximg_def ex_buf_def)
  from rows frame ex_copy_result show ?thesis by blast
qed

subsection \<open>Rendering\<close>

text \<open>
  C10 (as amended).  When the lock is acquired, the fetch of the image fails, the image
  pointer is live and the copy stays inside the image and the buffer, \<^verbatim>\<open>render_root\<close>
  still copies the whole frame from the image as it was before the call, which the
  failed fetch has not touched, and then tries to unlock.  If the unlock succeeds the
  buffer is unlocked and the result is 0; if the unlock fails the buffer stays locked
  and the result is \<open>- 1\<close>.
\<close>

theorem render_root_stale_copy:
  assumes "0 \<le> lock_result w" and "\<not> get_image_ok w" and "ximages w ximg = Some img"
    and "copy_ximg_to_buffer_mlocked buf img = Inr (c, buf')"
  shows "\<exists>w'. render_root buf ximg w
                 = (if unlock_result w < 0 then Inr (- 1) else Inr 0, buf', w')
           \<and> locked w' = (if unlock_result w < 0 then True else False)
           \<and> ximages w' = ximages w
           \<and> calls w' = calls w @ [LockBuffer, ShmGetImage, UnlockBuffer]"
  using assms
  by (simp add: render_root_def MLockBuffer_def XShmGetImage_def MUnlockBuffer_def Let_def
                called_def)

text \<open>
  An instance with a successful unlock: the buffer receives the stale bytes and the
  result is 0.
\<close>

theorem render_root_stale_copy_witness:
  "fst (render_root tiny_buf 1 (stale_world\<lparr>unlock_result := 0\<rparr>)) = Inr 0
   \<and> bits (fst (snd (render_root tiny_buf 1 (stale_world\<lparr>unlock_result := 0\<rparr>)))) = replicate 32 7
   \<and> \<not> locked (snd (snd (render_root tiny_buf 1 (stale_world\<lparr>unlock_result := 0\<rparr>))))"
proof -
  let ?w = "stale_world\<lparr>unlock_result := 0\<rparr>"
  have h1: "0 \<le> lock_result ?w" by (simp add: stale_world_def tiny_world_def quiet_world_def)
  have h2: "\<not> get_image_ok ?w" by (simp add: stale_world_def)
  have h3: "ximages ?w 1 = Some tiny_ximg" by (simp add: stale_world_def)
  have h4: "copy_ximg_to_buffer_mlocked tiny_buf tiny_ximg
              = Inr (0, tiny_buf\<lparr>bits := replicate 32 7\<rparr>)"
    by code_simp
  have u: "unlock_result ?w = 0" by simp
  from render_root_stale_copy [OF h1 h2 h3 h4] show ?thesis
    by (auto simp: u)
qed

text \<open>
  C10 as stated fails when the unlock fails: the lock was acquired and the fetch failed,
  yet the result is \<open>- 1\<close> and the buffer is still locked.
\<close>

theorem render_root_unlock_failure_counterexample:
  "0 \<le> lock_result stale_world \<and> \<not> get_image_ok stale_world
   \<and> fst (render_root tiny_buf 1 stale_world) = Inr (- 1)
   \<and> locked (snd (snd (render_root tiny_buf 1 stale_world)))"
  by code_simp

subsection \<open>Creating the shared image\<close>

text \<open>
  C7 does not hold of the code.  \<^verbatim>\<open>shmget\<close> has created segment 5 and \<^verbatim>\<open>shmat\<close>
  fails with \<^verbatim>\<open>(void *) -1\<close>.  The test \<^verbatim>\<open>shminfo->shmaddr < 0\<close> is on a pointer and is
  never true, so the failure goes unnoticed.  If \<^verbatim>\<open>XShmAttach\<close> then fails,
  \<^verbatim>\<open>cleanup_shm\<close> stops at the failing \<^verbatim>\<open>shmdt\<close> and never removes the segment:
  \<^verbatim>\<open>xshm_init\<close> returns \<^verbatim>\<open>NULL\<close> with the segment and the \<^verbatim>\<open>XImage\<close> structure still
  allocated.  If \<^verbatim>\<open>XShmAttach\<close> succeeds, \<^verbatim>\<open>xshm_init\<close> returns the image as if nothing
  had failed, with no memory attached.
\<close>

theorem xshm_init_attach_failure_leaks:
  "(case xshm_init no_shminfo attach_failure_world of
      (ximg, shminfo, w') \<Rightarrow>
        ximg = None \<and> shmaddr shminfo = - 1 \<and> segments w' 5 = Some 32 \<and> ximages w' 1 \<noteq> None)
   \<and> (case xshm_init no_shminfo attach_unnoticed_world of
      (ximg, shminfo, w') \<Rightarrow>
        ximg = Some 1 \<and> shmaddr shminfo = - 1 \<and> segments w' 5 = Some 32
        \<and> mappings w' (- 1) = None)"
  by code_simp

text \<open>Read off for the first world: failure is returned and segment 5 is still there.\<close>

theorem xshm_init_attach_failure_leaks_witness:
  "fst (xshm_init no_shminfo attach_failure_world) = None
   \<and> segments (snd (snd (xshm_init no_shminfo attach_failure_world))) 5 = Some 32"
  using xshm_init_attach_failure_leaks by (simp split: prod.splits)

subsection \<open>The confirmation wait\<close>

lemma first_match_None: "first_match P xs = None \<longleftrightarrow> filter P xs = []"
  by (induction xs) (auto split: option.splits)

lemma first_match_Some:
  "first_match P xs = Some (pre, y, rest) \<Longrightarrow> xs = pre @ y # rest \<and> P y \<and> filter P pre = []"
  by (induction xs arbitrary: pre) (auto split: option.splits if_splits)

lemma calls_called [simp]: "calls (called c w) = calls w @ [c]"
  by (simp add: called_def)

lemma XIfEvent_stream:
  assumes "XIfEvent P w = (r, w')"
  shows "calls w' = calls w @ [IfEvent]"
    and "r = (case filter P (queue w @ incoming w) of [] \<Rightarrow> Inl Blocks | ev # _ \<Rightarrow> Inr ev)"
    and "filter P (queue w' @ incoming w') = tl (filter P (queue w @ incoming w))"
    and "scr_width w' = scr_width w" and "scr_height w' = scr_height w"
proof -
  show "calls w' = calls w @ [IfEvent]"
    using assms by (auto simp: XIfEvent_def Let_def called_def split: option.splits)
  show "scr_width w' = scr_width w" "scr_height w' = scr_height w"
    using assms by (auto simp: XIfEvent_def Let_def called_def split: option.splits)
  show "r = (case filter P (queue w @ incoming w) of [] \<Rightarrow> Inl Blocks | ev # _ \<Rightarrow> Inr ev)"
    using assms
    by (auto simp: XIfEvent_def Let_def called_def first_match_None
             dest!: first_match_Some split: option.splits)
  show "filter P (queue w' @ incoming w') = tl (filter P (queue w @ incoming w))"
    using assms
    by (auto simp: XIfEvent_def Let_def called_def first_match_None
             dest!: first_match_Some split: option.splits)
qed

lemma XRRUpdateConfiguration_calls:
  "XRRUpdateConfiguration ev w = (r, w') \<Longrightarrow>
     calls w' = calls w @ [UpdateConfiguration (ev_width ev) (ev_height ev)]
   \<and> r = (if ev_root_known ev then 1 else 0)
   \<and> queue w' = queue w \<and> incoming w' = incoming w"
  by (auto simp: XRRUpdateConfiguration_def Let_def called_def split: if_splits)

lemma x_sync_mode_loop_outcome:
  assumes "0 \<le> i" "i \<le> 3"
  shows "fst (x_sync_mode_loop mode base i w) =
           confirmation_outcome mode (nat (3 - i))
             (filter (x_screenchangenotify_predicate base) (queue w @ incoming w))"
  using assms
proof (induction mode base i w rule: x_sync_mode_loop.induct)
  case (1 mode base i w)
  let ?P = "x_screenchangenotify_predicate base"
  show ?case
  proof (cases "i < 3")
    case False
    with "1.prems" have "i = 3" by simp
    then show ?thesis by (subst x_sync_mode_loop.simps) simp
  next
    case True
    then obtain k where k: "nat (3 - i) = Suc k" "nat (3 - (i + 1)) = k"
      using "1.prems" by (metis Suc_nat_eq_nat_zadd1 add_diff_cancel_right' diff_add_cancel diff_ge_0_iff_ge zless_imp_add1_zle add.commute diff_diff_eq)
    obtain r w1 where x: "XIfEvent ?P w = (r, w1)" by (cases "XIfEvent ?P w")
    note s = XIfEvent_stream [OF x]
    show ?thesis
    proof (cases "filter ?P (queue w @ incoming w)")
      case Nil
      with s(2) have "r = Inl Blocks" by simp
      with True x Nil k show ?thesis by (subst x_sync_mode_loop.simps) simp
    next
      case (Cons ev ns)
      with s(2) have r: "r = Inr ev" by simp
      from Cons have "ev \<in> set (filter ?P (queue w @ incoming w))" by simp
      then have ty: "ev_type ev = base + RRScreenChangeNotify"
        by (auto simp: x_screenchangenotify_predicate_def)
      from s(3) Cons have rest: "filter ?P (queue w1 @ incoming w1) = ns" by simp
      show ?thesis
      proof (cases "ev_width ev = mode_width mode \<and> ev_height ev = mode_height mode")
        case True
        with \<open>i < 3\<close> x r ty Cons k show ?thesis
          by (subst x_sync_mode_loop.simps)
             (simp add: XRRUpdateConfiguration_def Let_def)
      next
        case False
        have "fst (x_sync_mode_loop mode base (i + 1) w1) =
           confirmation_outcome mode (nat (3 - (i + 1))) (filter ?P (queue w1 @ incoming w1))"
          using \<open>i < 3\<close> "1.prems" False ty
          by (intro "1.IH"(1) [OF \<open>i < 3\<close> x [symmetric] r [symmetric, THEN sym] ]) auto
        with \<open>i < 3\<close> x r ty Cons k False rest show ?thesis
          by (subst x_sync_mode_loop.simps) auto
      qed
    qed
  qed
qed

lemma x_sync_mode_loop_calls:
  "\<exists>polls. calls (snd (x_sync_mode_loop mode base i w)) = calls w @ polls
      \<and> (\<forall>c \<in> set polls. poll_call c)
      \<and> length (filter (\<lambda>c. c = IfEvent) polls) \<le> nat (3 - i)
      \<and> (i < 3 \<longrightarrow> IfEvent \<in> set polls)"
proof (induction mode base i w rule: x_sync_mode_loop.induct)
  case (1 mode base i w)
  let ?P = "x_screenchangenotify_predicate base"
  show ?case
  proof (cases "i < 3")
    case False
    then show ?thesis by (subst x_sync_mode_loop.simps) simp
  next
    case True
    obtain r w1 where x: "XIfEvent ?P w = (r, w1)" by (cases "XIfEvent ?P w")
    note c1 = XIfEvent_stream(1) [OF x]
    show ?thesis
    proof (cases r)
      case (Inl f)
      with True x c1 show ?thesis by (subst x_sync_mode_loop.simps) simp
    next
      case (Inr ev)
      show ?thesis
      proof (cases "ev_type ev = base + RRScreenChangeNotify
                    \<and> ev_width ev = mode_width mode \<and> ev_height ev = mode_height mode")
        case True
        obtain u w2 where u: "XRRUpdateConfiguration ev w1 = (u, w2)"
          by (cases "XRRUpdateConfiguration ev w1")
        from XRRUpdateConfiguration_calls [OF u] c1
        have "calls w2 = calls w @ [IfEvent, UpdateConfiguration (ev_width ev) (ev_height ev)]"
          by simp
        with \<open>i < 3\<close> x Inr True u show ?thesis
          by (subst x_sync_mode_loop.simps) (auto split: if_splits)
      next
        case False
        have "\<exists>polls. calls (snd (x_sync_mode_loop mode base (i + 1) w1)) = calls w1 @ polls
            \<and> (\<forall>c \<in> set polls. poll_call c)
            \<and> length (filter (\<lambda>c. c = IfEvent) polls) \<le> nat (3 - (i + 1))
            \<and> (i + 1 < 3 \<longrightarrow> IfEvent \<in> set polls)"
        proof (cases "ev_type ev = base + RRScreenChangeNotify")
          case True
          with False show ?thesis
            using "1.IH"(1) [OF \<open>i < 3\<close> x [symmetric] Inr True] by blast
        next
          case False
          then show ?thesis
            using "1.IH"(2) [OF \<open>i < 3\<close> x [symmetric] Inr] by blast
        qed
        then obtain polls where p: "calls (snd (x_sync_mode_loop mode base (i + 1) w1)) = calls w1 @ polls"
            "\<forall>c \<in> set polls. poll_call c"
            "length (filter (\<lambda>c. c = IfEvent) polls) \<le> nat (3 - (i + 1))"
          by blast
        have step: "x_sync_mode_loop mode base i w = x_sync_mode_loop mode base (i + 1) w1"
          using \<open>i < 3\<close> x Inr False by (subst x_sync_mode_loop.simps) auto
        have "calls (snd (x_sync_mode_loop mode base i w)) = calls w @ (IfEvent # polls)"
          by (simp add: step p(1) c1)
        moreover have "\<forall>c \<in> set (IfEvent # polls). poll_call c" using p(2) by simp
        moreover have "length (filter (\<lambda>c. c = IfEvent) (IfEvent # polls)) \<le> nat (3 - i)"
          using p(3) \<open>i < 3\<close> by simp
        moreover have "IfEvent \<in> set (IfEvent # polls)" by simp
        ultimately show ?thesis by blast
      qed
    qed
  qed
qed

lemma x_sync_mode_calls:
  assumes "x_sync_mode dpy screenr mode base w = (r, w')"
  shows "\<exists>polls. calls w' = calls w @ polls \<and> (\<forall>c \<in> set polls. poll_call c)
           \<and> length (filter (\<lambda>c. c = IfEvent) polls) \<le> 3
           \<and> (dpy \<noteq> None \<and> screenr \<noteq> None \<and> mode \<noteq> None \<and> 0 \<le> base
                \<longrightarrow> IfEvent \<in> set polls)"
proof (cases "dpy \<noteq> None \<and> screenr \<noteq> None \<and> mode \<noteq> None \<and> 0 \<le> base")
  case True
  then obtain m where m: "mode = Some m" by auto
  from True m assms have "x_sync_mode_loop m base 0 w = (r, w')"
    by (auto simp: x_sync_mode_def split: option.splits)
  with x_sync_mode_loop_calls [of m base 0 w] show ?thesis by auto
next
  case False
  with assms have "w' = w"
    by (auto simp: x_sync_mode_def split: option.splits if_splits)
  with False show ?thesis by simp
qed

lemma confirmation_outcome_returns:
  "(\<exists>v. confirmation_outcome mode k ns = Inr v) \<longleftrightarrow>
     k \<le> length ns \<or> (\<exists>ev \<in> set ns. ev_width ev = mode_width mode \<and> ev_height ev = mode_height mode)"
  by (induction mode k ns rule: confirmation_outcome.induct) auto

text \<open>
  C4 (as amended).  With a valid event base, the confirmation wait of \<^verbatim>\<open>x_sync_mode\<close>
  looks at the screen-change notifications in the order they arrive, at most three of
  them, and makes at most three waiting calls.  Its result is that of
  \<open>confirmation_outcome\<close>: 0 at the first notification whose width and height are those
  of the applied mode, provided Xlib can apply it to its cache (\<open>- 1\<close> if it cannot);
  \<open>- 1\<close> after three notifications none of which matches; and no return at all when the
  notifications run out before that.  It returns exactly when at least three
  notifications arrive or one of those that arrive matches.
\<close>

theorem confirmation_wait_bounded:
  assumes "0 \<le> base"
    and "x_sync_mode (Some Handle) (Some sr) (Some mode) base w = (r, w')"
  shows "r = confirmation_outcome mode 3
               (filter (x_screenchangenotify_predicate base) (queue w @ incoming w))
       \<and> ((\<exists>v. r = Inr v) \<longleftrightarrow>
             3 \<le> length (filter (x_screenchangenotify_predicate base) (queue w @ incoming w))
           \<or> (\<exists>ev \<in> set (filter (x_screenchangenotify_predicate base) (queue w @ incoming w)).
                 ev_width ev = mode_width mode \<and> ev_height ev = mode_height mode))
       \<and> (\<exists>polls. calls w' = calls w @ polls
             \<and> length (filter (\<lambda>c. c = IfEvent) polls) \<le> 3)"
proof -
  let ?ns = "filter (x_screenchangenotify_predicate base) (queue w @ incoming w)"
  from assms have l: "x_sync_mode_loop mode base 0 w = (r, w')"
    by (simp add: x_sync_mode_def)
  have "fst (x_sync_mode_loop mode base 0 w) = confirmation_outcome mode (nat (3 - 0)) ?ns"
    by (rule x_sync_mode_loop_outcome) simp_all
  with l have r: "r = confirmation_outcome mode 3 ?ns" by simp
  from x_sync_mode_calls [OF assms(2)]
  have p: "\<exists>polls. calls w' = calls w @ polls \<and> length (filter (\<lambda>c. c = IfEvent) polls) \<le> 3"
    by blast
  from r p show ?thesis
    using confirmation_outcome_returns [of mode 3 ?ns] by simp
qed

text \<open>
  An instance: three notifications of another size arrive first; the wait gives up with
  \<open>- 1\<close> after three waiting calls at most.
\<close>

theorem confirmation_wait_bounded_witness:
  "fst (x_sync_mode (Some Handle) (Some hd_modes)
          (Some \<lparr>mode_id = 2, mode_width = 1280, mode_height = 720\<rparr>) 89 unrelated_world)
     = Inr (- 1)
   \<and> (\<exists>polls. calls (snd (x_sync_mode (Some Handle) (Some hd_modes)
          (Some \<lparr>mode_id = 2, mode_width = 1280, mode_height = 720\<rparr>) 89 unrelated_world))
            = calls unrelated_world @ polls
        \<and> length (filter (\<lambda>c. c = IfEvent) polls) \<le> 3)"
proof -
  let ?m = "\<lparr>mode_id = 2, mode_width = 1280, mode_height = 720\<rparr>"
  have b: "(0::int) \<le> 89" by simp
  obtain r w' where x: "x_sync_mode (Some Handle) (Some hd_modes) (Some ?m) 89 unrelated_world = (r, w')"
    by (cases "x_sync_mode (Some Handle) (Some hd_modes) (Some ?m) 89 unrelated_world")
  note t = confirmation_wait_bounded [OF b x]
  have "confirmation_outcome ?m 3
          (filter (x_screenchangenotify_predicate 89) (queue unrelated_world @ incoming unrelated_world))
        = Inr (- 1)"
    by code_simp
  with t x show ?thesis by simp
qed

text \<open>
  C4 as stated fails on the empty stream: when no notification ever arrives the wait
  does not return.
\<close>

theorem confirmation_wait_blocks_counterexample:
  "fst (x_sync_mode (Some Handle) (Some hd_modes)
          (Some \<lparr>mode_id = 2, mode_width = 1280, mode_height = 720\<rparr>) 89 quiet_world)
     = Inl Blocks"
  by code_simp

subsection \<open>The grab\<close>

lemma x_set_mode_calls:
  assumes "x_set_mode dpy screenr mode w = (r, w')"
  shows "\<exists>tr. calls w' = calls w @ tr \<and> (\<forall>c \<in> set tr. held_call c \<and> c \<noteq> IfEvent)
           \<and> ((\<exists>a b. SetScreenSize a b \<in> set tr) \<longrightarrow> r = Inr 0)
           \<and> ((\<exists>a b. SetCrtcConfig a b \<in> set tr) \<longrightarrow> mode \<noteq> None)"
  using assms
  by (auto simp: x_set_mode_def Let_def called_def
           split: option.splits list.splits if_splits)

lemma poll_call_held: "poll_call c \<Longrightarrow> held_call c"
  by (cases c) simp_all

lemma x_find_matching_mode_Some:
  "x_find_matching_mode dpy screenr a b = Some m \<Longrightarrow> dpy \<noteq> None \<and> screenr \<noteq> None"
  by (auto simp: x_find_matching_mode_def split: option.splits)

lemma sync_needed_branch_calls:
  assumes "sync_needed_branch dpy base tw th w = (r, w')"
  shows "\<exists>body. calls w' = calls w @ body \<and> (\<forall>c \<in> set body. held_call c)
           \<and> ((\<exists>a b. SetScreenSize a b \<in> set body) \<and> 0 \<le> base \<longrightarrow> IfEvent \<in> set body)
           \<and> length (filter (\<lambda>c. c = IfEvent) body) \<le> 3"
proof (cases "x_find_matching_mode dpy (screen_resources w) tw th")
  case None
  with assms have "calls w' = calls w @ [GetScreenResources, FreeScreenResources]"
    by (auto simp: sync_needed_branch_def XRRGetScreenResources_def XRRFreeScreenResources_def)
  then show ?thesis by simp
next
  case (Some m)
  note nn = x_find_matching_mode_Some [OF Some]
  let ?w1 = "called GetScreenResources w"
  obtain r2 w2 where sm: "x_set_mode dpy (screen_resources w) (Some m) ?w1 = (r2, w2)"
    by (cases "x_set_mode dpy (screen_resources w) (Some m) ?w1")
  from x_set_mode_calls [OF sm] obtain tr where tr: "calls w2 = calls ?w1 @ tr"
    "\<forall>c \<in> set tr. held_call c \<and> c \<noteq> IfEvent"
    "(\<exists>a b. SetScreenSize a b \<in> set tr) \<longrightarrow> r2 = Inr 0"
    by blast
  show ?thesis
  proof (cases "r2 = Inr 0")
    case False
    from False sm Some assms
    have "calls w' = calls w2 \<or> calls w' = calls w2 @ [FreeScreenResources]"
      by (auto simp: sync_needed_branch_def XRRGetScreenResources_def XRRFreeScreenResources_def
               split: sum.splits if_splits)
    then obtain fin where fin: "calls w' = calls w2 @ fin" "fin = [] \<or> fin = [FreeScreenResources]"
      by auto
    have "calls w' = calls w @ (GetScreenResources # tr @ fin)" by (simp add: fin tr)
    moreover have "\<forall>c \<in> set (GetScreenResources # tr @ fin). held_call c"
      using tr(2) fin(2) by auto
    moreover have "\<not> (\<exists>a b. SetScreenSize a b \<in> set (GetScreenResources # tr @ fin))"
      using tr(3) False fin(2) by auto
    moreover have "length (filter (\<lambda>c. c = IfEvent) (GetScreenResources # tr @ fin)) \<le> 3"
      using tr(2) fin(2) by (auto simp: filter_empty_conv [THEN iffD2])
    ultimately show ?thesis by blast
  next
    case True
    obtain r3 w3 where sy: "x_sync_mode dpy (screen_resources w) (Some m) base w2 = (r3, w3)"
      by (cases "x_sync_mode dpy (screen_resources w) (Some m) base w2")
    from x_sync_mode_calls [OF sy] nn obtain polls where polls: "calls w3 = calls w2 @ polls"
      "\<forall>c \<in> set polls. poll_call c" "length (filter (\<lambda>c. c = IfEvent) polls) \<le> 3"
      "0 \<le> base \<longrightarrow> IfEvent \<in> set polls"
      by blast
    from True sm sy Some assms
    have "calls w' = calls w3 \<or> calls w' = calls w3 @ [FreeScreenResources]"
      by (auto simp: sync_needed_branch_def XRRGetScreenResources_def XRRFreeScreenResources_def
               split: sum.splits if_splits)
    then obtain fin where fin: "calls w' = calls w3 @ fin" "fin = [] \<or> fin = [FreeScreenResources]"
      by auto
    have "calls w' = calls w @ (GetScreenResources # tr @ polls @ fin)"
      by (simp add: fin tr polls)
    moreover have "\<forall>c \<in> set (GetScreenResources # tr @ polls @ fin). held_call c"
      using tr(2) polls(2) fin(2) by (auto dest: poll_call_held)
    moreover have "0 \<le> base \<longrightarrow> IfEvent \<in> set (GetScreenResources # tr @ polls @ fin)"
      using polls(4) by simp
    moreover have "length (filter (\<lambda>c. c = IfEvent) (GetScreenResources # tr @ polls @ fin)) \<le> 3"
      using tr(2) fin(2) polls(3) by (auto simp: filter_empty_conv [THEN iffD2])
    ultimately show ?thesis by blast
  qed
qed

lemma pre_grab_resync_calls:
  "\<exists>upd. calls (pre_grab_resync base w) = calls w @ CheckIfEvent # upd
      \<and> (\<forall>c \<in> set upd. \<exists>a b. c = UpdateConfiguration a b)"
  by (auto simp: pre_grab_resync_def XCheckIfEvent_def XRRUpdateConfiguration_def Let_def
                 called_def split: option.splits prod.splits)

text \<open>The calls of one negotiation attempt that gets as far as the grab.\<close>

lemma sync_displays_shape:
  assumes di: "display_info w = Some (dw, dh)" and pos: "0 < sint dw" "0 < sint dh"
    and run: "sync_displays (Some Handle) (Some Handle) base w = (r, w')"
  shows "\<exists>pre body. calls w' = calls w @ pre @ [GrabServer] @ body
                          @ (case r of Inl f \<Rightarrow> [] | Inr v \<Rightarrow> [UngrabServer])
           \<and> (\<forall>c \<in> set pre. pre_grab_call c)
           \<and> (\<forall>c \<in> set body. held_call c)
           \<and> ((\<exists>a b. SetScreenSize a b \<in> set body) \<and> 0 \<le> base \<longrightarrow> IfEvent \<in> set body)
           \<and> length (filter (\<lambda>c. c = IfEvent) body) \<le> 3"
proof -
  let ?w1 = "called GetDisplayInfo w"
  let ?w2 = "pre_grab_resync base ?w1"
  let ?w5 = "called DisplayHeight (called DisplayWidth (called GrabServer ?w2))"
  obtain upd where upd: "calls ?w2 = calls ?w1 @ CheckIfEvent # upd"
    "\<forall>c \<in> set upd. \<exists>a b. c = UpdateConfiguration a b"
    using pre_grab_resync_calls [of base ?w1] by blast
  let ?pre = "GetDisplayInfo # CheckIfEvent # upd"
  have pre: "\<forall>c \<in> set ?pre. pre_grab_call c" using upd(2) by auto
  have c5: "calls ?w5 = calls w @ ?pre @ [GrabServer] @ [DisplayWidth, DisplayHeight]"
    by (simp add: upd(1))
  have sw: "scr_width (called GrabServer ?w2) = scr_width ?w2"
    and sh: "scr_height (called DisplayWidth (called GrabServer ?w2)) = scr_height ?w2"
    by (simp_all add: called_def)
  show ?thesis
  proof (cases "scr_width ?w2 \<noteq> dw \<or> scr_height ?w2 \<noteq> dh")
    case False
    with run di pos have "r = Inr 0" "w' = called UngrabServer ?w5"
      by (auto simp: sync_displays_def MGetDisplayInfo_def XDisplayWidth_def XDisplayHeight_def
                     Let_def sw sh)
    then have "calls w' = calls w @ ?pre @ [GrabServer] @ [DisplayWidth, DisplayHeight]
                 @ (case r of Inl f \<Rightarrow> [] | Inr v \<Rightarrow> [UngrabServer])"
      by (simp add: upd(1))
    moreover have "\<forall>c \<in> set [DisplayWidth, DisplayHeight]. held_call c" by simp
    moreover have "\<not> (\<exists>a b. SetScreenSize a b \<in> set [DisplayWidth, DisplayHeight])" by simp
    moreover have "length (filter (\<lambda>c. c = IfEvent) [DisplayWidth, DisplayHeight]) \<le> 3" by simp
    ultimately show ?thesis using pre by blast
  next
    case True
    obtain r6 w6 where br: "sync_needed_branch (Some Handle) base dw dh ?w5 = (r6, w6)"
      by (cases "sync_needed_branch (Some Handle) base dw dh ?w5")
    from sync_needed_branch_calls [OF br] obtain body where body:
      "calls w6 = calls ?w5 @ body" "\<forall>c \<in> set body. held_call c"
      "(\<exists>a b. SetScreenSize a b \<in> set body) \<and> 0 \<le> base \<longrightarrow> IfEvent \<in> set body"
      "length (filter (\<lambda>c. c = IfEvent) body) \<le> 3"
      by blast
    from True run di pos br
    have "(\<exists>f. r = Inl f \<and> w' = w6) \<or> (\<exists>v. r = Inr v \<and> w' = called UngrabServer w6)"
      by (auto simp: sync_displays_def MGetDisplayInfo_def XDisplayWidth_def XDisplayHeight_def
                     Let_def sw sh split: sum.splits)
    then have "calls w' = calls w6 @ (case r of Inl f \<Rightarrow> [] | Inr v \<Rightarrow> [UngrabServer])"
      by auto
    then have "calls w' = calls w @ ?pre @ [GrabServer] @ ([DisplayWidth, DisplayHeight] @ body)
                 @ (case r of Inl f \<Rightarrow> [] | Inr v \<Rightarrow> [UngrabServer])"
      by (simp add: body(1) upd(1))
    moreover have "\<forall>c \<in> set ([DisplayWidth, DisplayHeight] @ body). held_call c"
      using body(2) by simp
    moreover have "(\<exists>a b. SetScreenSize a b \<in> set ([DisplayWidth, DisplayHeight] @ body)) \<and> 0 \<le> base
        \<longrightarrow> IfEvent \<in> set ([DisplayWidth, DisplayHeight] @ body)"
      using body(3) by simp
    moreover have "length (filter (\<lambda>c. c = IfEvent) ([DisplayWidth, DisplayHeight] @ body)) \<le> 3"
      using body(4) by simp
    ultimately show ?thesis using pre by blast
  qed
qed

lemma pre_grab_not_geometry: "pre_grab_call c \<Longrightarrow> \<not> geometry_call c \<and> c \<noteq> GrabServer \<and> c \<noteq> UngrabServer \<and> c \<noteq> IfEvent"
  by (cases c) simp_all

lemma held_call_iff: "held_call c \<longleftrightarrow> c \<noteq> GrabServer \<and> c \<noteq> UngrabServer"
  by (cases c) simp_all

text \<open>
  C2.  Take a negotiation attempt that reaches the grab: both handles are given and the
  destination reports a positive geometry.  The calls it makes are, in this order: calls
  that neither inspect nor change the screen configuration (the query of the
  destination, the check for a pending notification and the refresh of Xlib's cache from
  it), then \<^verbatim>\<open>XGrabServer\<close>, then calls among which there is no second grab and no
  release, and last, on every path on which the attempt returns, one \<^verbatim>\<open>XUngrabServer\<close>.
  So every reading of the display size, every query of screen resources or controller
  and every mode or screen-size request comes after the grab, and the grab is released
  exactly once on every exit path: already synced, no matching mode, mode-set failure
  and confirmation failure alike.  An attempt that does not return releases nothing.
\<close>

theorem grab_brackets_geometry_work:
  assumes "display_info w = Some (dw, dh)" and "0 < sint dw" and "0 < sint dh"
    and "sync_displays (Some Handle) (Some Handle) base w = (r, w')"
  shows "\<exists>pre body. calls w' = calls w @ pre @ [GrabServer] @ body
                          @ (case r of Inl f \<Rightarrow> [] | Inr v \<Rightarrow> [UngrabServer])
           \<and> (\<forall>c \<in> set pre. \<not> geometry_call c \<and> c \<noteq> GrabServer \<and> c \<noteq> UngrabServer)
           \<and> (\<forall>c \<in> set body. c \<noteq> GrabServer \<and> c \<noteq> UngrabServer)"
proof -
  from sync_displays_shape [OF assms] obtain pre body where
    "calls w' = calls w @ pre @ [GrabServer] @ body
                          @ (case r of Inl f \<Rightarrow> [] | Inr v \<Rightarrow> [UngrabServer])"
    "\<forall>c \<in> set pre. pre_grab_call c" "\<forall>c \<in> set body. held_call c"
    by blast
  then show ?thesis
    using pre_grab_not_geometry held_call_iff by blast
qed

text \<open>
  The confirmation-failure path as an instance: three unrelated notifications arrive
  after the mode is applied, the attempt returns \<open>- 1\<close>, and its calls have the shape
  above with the release last.
\<close>

theorem grab_brackets_geometry_work_witness:
  "\<exists>pre body. calls (snd (sync_displays (Some Handle) (Some Handle) 89 unrelated_world)) =
       calls unrelated_world @ pre @ [GrabServer] @ body @ [UngrabServer]
     \<and> (\<forall>c \<in> set pre. \<not> geometry_call c \<and> c \<noteq> GrabServer \<and> c \<noteq> UngrabServer)
     \<and> (\<forall>c \<in> set body. c \<noteq> GrabServer \<and> c \<noteq> UngrabServer)"
proof -
  have h1: "display_info unrelated_world = Some (1280, 720)"
    by (simp add: unrelated_world_def quiet_world_def)
  have h2: "0 < sint (1280 :: c_int)" "0 < sint (720 :: c_int)" by simp_all
  have r: "fst (sync_displays (Some Handle) (Some Handle) 89 unrelated_world) = Inr (- 1)"
    by code_simp
  then have h3: "sync_displays (Some Handle) (Some Handle) 89 unrelated_world =
      (Inr (- 1), snd (sync_displays (Some Handle) (Some Handle) 89 unrelated_world))"
    by (metis prod.collapse)
  from grab_brackets_geometry_work [OF h1 h2 h3] show ?thesis by simp
qed

text \<open>The calls on the four named paths: already synced, no matching mode, mode-set
  failure, confirmation failure.  Each ends with the one release.\<close>

lemma grab_released_on_named_paths:
  "calls (snd (sync_displays (Some Handle) (Some Handle) 89 in_sync_world)) =
     [GetDisplayInfo, CheckIfEvent, GrabServer, DisplayWidth, DisplayHeight, UngrabServer]"
  "calls (snd (sync_displays (Some Handle) (Some Handle) 89 unmatched_world)) =
     [GetDisplayInfo, CheckIfEvent, GrabServer, DisplayWidth, DisplayHeight,
      GetScreenResources, FreeScreenResources, UngrabServer]"
  "calls (snd (sync_displays (Some Handle) (Some Handle) 89 refused_world)) =
     [GetDisplayInfo, CheckIfEvent, GrabServer, DisplayWidth, DisplayHeight,
      GetScreenResources, DisplayHeight, DisplayHeightMM, GetCrtcInfo 7, SetCrtcConfig 7 2,
      FreeScreenResources, UngrabServer]"
  "calls (snd (sync_displays (Some Handle) (Some Handle) 89 unrelated_world)) =
     [GetDisplayInfo, CheckIfEvent, GrabServer, DisplayWidth, DisplayHeight,
      GetScreenResources, DisplayHeight, DisplayHeightMM, GetCrtcInfo 7, SetCrtcConfig 7 2,
      SetScreenSize 1280 720, IfEvent, IfEvent, IfEvent, FreeScreenResources, UngrabServer]"
  by code_simp+

text \<open>
  C3 (as amended).  In a negotiation attempt that reaches the grab, the wait for
  confirmation happens while the grab is held: before \<^verbatim>\<open>XGrabServer\<close> there are only
  the pre-grab calls, none of which waits for an event; after it, up to the end of the
  attempt, there is no \<^verbatim>\<open>XUngrabServer\<close> except the one that ends an attempt that
  returns; and whenever a mode has been applied (the screen size has been set) with a
  valid event base, a wait for a notification follows inside that span.  The grab is
  released only after the wait has returned, and never when the wait does not return.
\<close>

theorem confirmation_wait_under_grab:
  assumes "display_info w = Some (dw, dh)" and "0 < sint dw" and "0 < sint dh"
    and "sync_displays (Some Handle) (Some Handle) base w = (r, w')"
  shows "\<exists>pre body. calls w' = calls w @ pre @ [GrabServer] @ body
                          @ (case r of Inl f \<Rightarrow> [] | Inr v \<Rightarrow> [UngrabServer])
           \<and> (\<forall>c \<in> set pre. pre_grab_call c)
           \<and> GrabServer \<notin> set body \<and> UngrabServer \<notin> set body
           \<and> ((\<exists>a b. SetScreenSize a b \<in> set body) \<and> 0 \<le> base \<longrightarrow> IfEvent \<in> set body)"
proof -
  from sync_displays_shape [OF assms] obtain pre body where
    "calls w' = calls w @ pre @ [GrabServer] @ body
                          @ (case r of Inl f \<Rightarrow> [] | Inr v \<Rightarrow> [UngrabServer])"
    "\<forall>c \<in> set pre. pre_grab_call c" "\<forall>c \<in> set body. held_call c"
    "(\<exists>a b. SetScreenSize a b \<in> set body) \<and> 0 \<le> base \<longrightarrow> IfEvent \<in> set body"
    by blast
  then show ?thesis
    using held_call_iff by blast
qed

text \<open>
  An instance: the mode 1280 by 720 is applied and confirmed by the first notification;
  the wait lies between the grab and the release.
\<close>

theorem confirmation_wait_under_grab_witness:
  "\<exists>pre body. calls (snd (sync_displays (Some Handle) (Some Handle) 89 confirming_world)) =
       calls confirming_world @ pre @ [GrabServer] @ body @ [UngrabServer]
     \<and> (\<forall>c \<in> set pre. pre_grab_call c)
     \<and> GrabServer \<notin> set body \<and> UngrabServer \<notin> set body
     \<and> IfEvent \<in> set body"
proof -
  have h1: "display_info confirming_world = Some (1280, 720)"
    by (simp add: confirming_world_def quiet_world_def)
  have h2: "0 < sint (1280 :: c_int)" "0 < sint (720 :: c_int)" by simp_all
  have r: "fst (sync_displays (Some Handle) (Some Handle) 89 confirming_world) = Inr 0"
    by code_simp
  then have h3: "sync_displays (Some Handle) (Some Handle) 89 confirming_world =
      (Inr 0, snd (sync_displays (Some Handle) (Some Handle) 89 confirming_world))"
    by (metis prod.collapse)
  have applied: "SetScreenSize 1280 720
      \<in> set (calls (snd (sync_displays (Some Handle) (Some Handle) 89 confirming_world)))"
    by code_simp
  from confirmation_wait_under_grab [OF h1 h2 h3] obtain pre body where
    s: "calls (snd (sync_displays (Some Handle) (Some Handle) 89 confirming_world)) =
       calls confirming_world @ pre @ [GrabServer] @ body @ [UngrabServer]"
    and p: "\<forall>c \<in> set pre. pre_grab_call c" "GrabServer \<notin> set body" "UngrabServer \<notin> set body"
    and i: "(\<exists>a b. SetScreenSize a b \<in> set body) \<and> (0::int) \<le> 89 \<longrightarrow> IfEvent \<in> set body"
    by auto
  have "calls confirming_world = []" by (simp add: confirming_world_def quiet_world_def)
  with applied s have "SetScreenSize 1280 720 \<in> set pre \<or> SetScreenSize 1280 720 \<in> set body"
    by auto
  moreover have "SetScreenSize 1280 720 \<notin> set pre"
    using p(1) by auto
  ultimately have "IfEvent \<in> set body" using i by auto
  with s p show ?thesis by blast
qed

text \<open>
  C3 as stated fails: in the same run the program waits for the notification
  (\<open>IfEvent\<close>) after \<^verbatim>\<open>XGrabServer\<close> and before \<^verbatim>\<open>XUngrabServer\<close>.
\<close>

theorem wait_before_release_counterexample:
  "calls (snd (sync_displays (Some Handle) (Some Handle) 89 confirming_world)) =
     [GetDisplayInfo, CheckIfEvent, GrabServer, DisplayWidth, DisplayHeight, GetScreenResources,
      DisplayHeight, DisplayHeightMM, GetCrtcInfo 7, SetCrtcConfig 7 2, SetScreenSize 1280 720,
      IfEvent, UpdateConfiguration 1280 720, FreeScreenResources, UngrabServer]
   \<and> waits_under_grab False
        (calls (snd (sync_displays (Some Handle) (Some Handle) 89 confirming_world)))"
  by code_simp

text \<open>When the mode is applied and no notification ever arrives, the attempt does not
  return and the server stays grabbed.\<close>

lemma blocked_wait_keeps_grab:
  "fst (sync_displays (Some Handle) (Some Handle) 89 quiet_world) = Inl Blocks"
  "calls (snd (sync_displays (Some Handle) (Some Handle) 89 quiet_world)) =
     [GetDisplayInfo, CheckIfEvent, GrabServer, DisplayWidth, DisplayHeight,
      GetScreenResources, DisplayHeight, DisplayHeightMM, GetCrtcInfo 7, SetCrtcConfig 7 2,
      SetScreenSize 1280 720, IfEvent]"
  by code_simp+

subsection \<open>Outcomes of a negotiation\<close>

lemma pre_grab_resync_env:
  "screen_resources (pre_grab_resync base w) = screen_resources w"
  by (auto simp: pre_grab_resync_def XCheckIfEvent_def XRRUpdateConfiguration_def Let_def
                 called_def split: option.splits prod.splits)

lemma find_mode_loop_None:
  "find_mode_loop ms a b = None \<longleftrightarrow> (\<forall>m \<in> set ms. mode_width m \<noteq> a \<or> mode_height m \<noteq> b)"
  by (induction ms) auto

text \<open>
  C9.  When the geometry the destination asks for is positive and equal to the geometry
  Xlib reports at the comparison under the grab (that is, after the pre-grab re-sync),
  \<^verbatim>\<open>sync_displays\<close> returns 0 and does nothing but grab, read the width and the
  height, and release: no screen resources are fetched, no mode is applied, no screen
  size is set and no notification is waited for, and the geometry is what it was at the
  comparison.
\<close>

theorem in_sync_geometry_is_noop:
  assumes "display_info w = Some (tw, th)" and "0 < sint tw" and "0 < sint th"
    and "scr_width (pre_grab_resync base (snd (MGetDisplayInfo w))) = tw"
    and "scr_height (pre_grab_resync base (snd (MGetDisplayInfo w))) = th"
  shows "sync_displays (Some Handle) (Some Handle) base w =
           (Inr 0, called UngrabServer (called DisplayHeight (called DisplayWidth
                     (called GrabServer (pre_grab_resync base (snd (MGetDisplayInfo w)))))))
       \<and> (\<exists>upd. calls (snd (sync_displays (Some Handle) (Some Handle) base w)) =
                   calls w @ [GetDisplayInfo, CheckIfEvent] @ upd
                     @ [GrabServer, DisplayWidth, DisplayHeight, UngrabServer]
               \<and> (\<forall>c \<in> set upd. \<exists>a b. c = UpdateConfiguration a b))
       \<and> scr_width (snd (sync_displays (Some Handle) (Some Handle) base w)) = tw
       \<and> scr_height (snd (sync_displays (Some Handle) (Some Handle) base w)) = th"
proof -
  let ?w1 = "snd (MGetDisplayInfo w)"
  let ?w2 = "pre_grab_resync base ?w1"
  have w1: "?w1 = called GetDisplayInfo w"
    using assms(1) by (simp add: MGetDisplayInfo_def)
  have run: "sync_displays (Some Handle) (Some Handle) base w =
           (Inr 0, called UngrabServer (called DisplayHeight (called DisplayWidth
                     (called GrabServer ?w2))))"
    using assms by (simp add: sync_displays_def MGetDisplayInfo_def XDisplayWidth_def
        XDisplayHeight_def Let_def called_def)
  obtain upd where upd: "calls ?w2 = calls ?w1 @ CheckIfEvent # upd"
    "\<forall>c \<in> set upd. \<exists>a b. c = UpdateConfiguration a b"
    using pre_grab_resync_calls [of base ?w1] by blast
  have "calls (snd (sync_displays (Some Handle) (Some Handle) base w)) =
          calls w @ [GetDisplayInfo, CheckIfEvent] @ upd
             @ [GrabServer, DisplayWidth, DisplayHeight, UngrabServer]"
    by (simp add: run upd(1)) (simp add: w1)
  with upd(2) have tr: "\<exists>upd. calls (snd (sync_displays (Some Handle) (Some Handle) base w)) =
                   calls w @ [GetDisplayInfo, CheckIfEvent] @ upd
                     @ [GrabServer, DisplayWidth, DisplayHeight, UngrabServer]
               \<and> (\<forall>c \<in> set upd. \<exists>a b. c = UpdateConfiguration a b)"
    by blast
  have "scr_width (snd (sync_displays (Some Handle) (Some Handle) base w)) = tw"
    "scr_height (snd (sync_displays (Some Handle) (Some Handle) base w)) = th"
    using assms(4,5) by (simp_all add: run called_def)
  with run tr show ?thesis by blast
qed

text \<open>
  An instance: the screen is 1920 by 1080 and that is what the destination asks for.
\<close>

theorem in_sync_geometry_is_noop_witness:
  "sync_displays (Some Handle) (Some Handle) 89 in_sync_world =
     (Inr 0, called UngrabServer (called DisplayHeight (called DisplayWidth
               (called GrabServer (pre_grab_resync 89 (snd (MGetDisplayInfo in_sync_world)))))))
   \<and> scr_width (snd (sync_displays (Some Handle) (Some Handle) 89 in_sync_world)) = 1920
   \<and> scr_height (snd (sync_displays (Some Handle) (Some Handle) 89 in_sync_world)) = 1080"
proof -
  have h1: "display_info in_sync_world = Some (1920, 1080)" by (simp add: in_sync_world_def)
  have h2: "0 < sint (1920 :: c_int)" "0 < sint (1080 :: c_int)" by simp_all
  have h3: "scr_width (pre_grab_resync 89 (snd (MGetDisplayInfo in_sync_world))) = 1920"
    by code_simp
  have h4: "scr_height (pre_grab_resync 89 (snd (MGetDisplayInfo in_sync_world))) = 1080"
    by code_simp
  from in_sync_geometry_is_noop [OF h1 h2 h3 h4] show ?thesis by blast
qed

text \<open>
  C8 (as amended).  When the geometry the destination asks for is positive, differs from
  the geometry Xlib reports at the comparison under the grab, and is the size of no
  advertised mode, \<^verbatim>\<open>sync_displays\<close> returns \<open>- 1\<close> after fetching and freeing the
  screen resources under the grab: no mode is applied, no screen size is set, no
  notification is waited for, and the geometry is what it was at the comparison.
\<close>

theorem unmatched_geometry_keeps_current_mode:
  assumes "display_info w = Some (tw, th)" and "0 < sint tw" and "0 < sint th"
    and "scr_width (pre_grab_resync base (snd (MGetDisplayInfo w))) \<noteq> tw
       \<or> scr_height (pre_grab_resync base (snd (MGetDisplayInfo w))) \<noteq> th"
    and "\<forall>sr. screen_resources w = Some sr \<longrightarrow>
           (\<forall>m \<in> set (modes sr). mode_width m \<noteq> tw \<or> mode_height m \<noteq> th)"
  shows "sync_displays (Some Handle) (Some Handle) base w =
           (Inr (- 1),
            called UngrabServer (called FreeScreenResources (called GetScreenResources
              (called DisplayHeight (called DisplayWidth
                (called GrabServer (pre_grab_resync base (snd (MGetDisplayInfo w)))))))))
       \<and> scr_width (snd (sync_displays (Some Handle) (Some Handle) base w))
           = scr_width (pre_grab_resync base (snd (MGetDisplayInfo w)))
       \<and> scr_height (snd (sync_displays (Some Handle) (Some Handle) base w))
           = scr_height (pre_grab_resync base (snd (MGetDisplayInfo w)))"
proof -
  let ?w1 = "snd (MGetDisplayInfo w)"
  let ?w2 = "pre_grab_resync base ?w1"
  let ?w5 = "called DisplayHeight (called DisplayWidth (called GrabServer ?w2))"
  have w1: "?w1 = called GetDisplayInfo w"
    using assms(1) by (simp add: MGetDisplayInfo_def)
  have sr: "screen_resources ?w5 = screen_resources w"
    by (simp add: called_def pre_grab_resync_env w1)
  have "x_find_matching_mode (Some Handle) (screen_resources w) tw th = None"
    using assms(5) by (auto simp: x_find_matching_mode_def find_mode_loop_None split: option.splits)
  then have br: "sync_needed_branch (Some Handle) base tw th ?w5 =
      (Inr (- 1), called FreeScreenResources (called GetScreenResources ?w5))"
    by (simp add: sync_needed_branch_def XRRGetScreenResources_def XRRFreeScreenResources_def sr)
  have cond: "scr_width (called GrabServer ?w2) \<noteq> tw
      \<or> scr_height (called DisplayWidth (called GrabServer ?w2)) \<noteq> th"
    using assms(4) by (simp add: called_def)
  have run: "sync_displays (Some Handle) (Some Handle) base w =
           (Inr (- 1), called UngrabServer (called FreeScreenResources (called GetScreenResources ?w5)))"
    using assms(1-3) cond br unfolding w1
    by (simp add: sync_displays_def MGetDisplayInfo_def XDisplayWidth_def
        XDisplayHeight_def Let_def)
  then show ?thesis by (simp add: called_def)
qed

text \<open>
  An instance: the destination asks for 1024 by 768, which is not among the modes.
\<close>

theorem unmatched_geometry_keeps_current_mode_witness:
  "sync_displays (Some Handle) (Some Handle) 89 unmatched_world =
     (Inr (- 1),
      called UngrabServer (called FreeScreenResources (called GetScreenResources
        (called DisplayHeight (called DisplayWidth
          (called GrabServer (pre_grab_resync 89 (snd (MGetDisplayInfo unmatched_world)))))))))
   \<and> scr_width (snd (sync_displays (Some Handle) (Some Handle) 89 unmatched_world)) = 1920
   \<and> scr_height (snd (sync_displays (Some Handle) (Some Handle) 89 unmatched_world)) = 1080"
proof -
  have h1: "display_info unmatched_world = Some (1024, 768)" by (simp add: unmatched_world_def)
  have h2: "0 < sint (1024 :: c_int)" "0 < sint (768 :: c_int)" by simp_all
  have h3: "scr_width (pre_grab_resync 89 (snd (MGetDisplayInfo unmatched_world))) = 1920"
    by code_simp
  have h4: "scr_height (pre_grab_resync 89 (snd (MGetDisplayInfo unmatched_world))) = 1080"
    by code_simp
  have h5: "\<forall>sr. screen_resources unmatched_world = Some sr \<longrightarrow>
           (\<forall>m \<in> set (modes sr). mode_width m \<noteq> 1024 \<or> mode_height m \<noteq> 768)"
    by (simp add: unmatched_world_def quiet_world_def hd_modes_def)
  have d: "scr_width (pre_grab_resync 89 (snd (MGetDisplayInfo unmatched_world))) \<noteq> 1024
       \<or> scr_height (pre_grab_resync 89 (snd (MGetDisplayInfo unmatched_world))) \<noteq> 768"
    by (simp add: h3)
  note t = unmatched_geometry_keeps_current_mode [OF h1 h2 d h5]
  have "scr_width (snd (sync_displays (Some Handle) (Some Handle) 89 unmatched_world)) = 1920"
    by (rule trans [OF t [THEN conjunct2, THEN conjunct1] h3])
  moreover have "scr_height (snd (sync_displays (Some Handle) (Some Handle) 89 unmatched_world)) = 1080"
    by (rule trans [OF t [THEN conjunct2, THEN conjunct2] h4])
  ultimately show ?thesis using t by blast
qed

text \<open>
  C8 as stated fails in that the result for an unmatched geometry is not distinct from
  failure: the status is \<open>- 1\<close> both when no mode matches and when a mode was applied and
  its confirmation failed.
\<close>

theorem unmatched_status_not_distinct_counterexample:
  "fst (sync_displays (Some Handle) (Some Handle) 89 unmatched_world) = Inr (- 1)
   \<and> fst (sync_displays (Some Handle) (Some Handle) 89 unrelated_world) = Inr (- 1)
   \<and> SetScreenSize 1280 720 \<in> set (calls (snd (sync_displays (Some Handle) (Some Handle) 89 unrelated_world)))"
  by code_simp

subsection \<open>Reconfiguration and exit\<close>

text \<open>
  C6 does not hold of the code.  After a change of geometry \<^verbatim>\<open>resize_shm\<close> destroys the
  old image, builds a new one of the live geometry and returns 0, but the pointer to the
  new image stays in its own parameter.  When the allocator has placed the new structure
  at another address, the pointer the event loop keeps using is the destroyed one: the
  image of the right size exists at address 2, and the next \<^verbatim>\<open>render_root\<close> reads
  through address 1.
\<close>

theorem resize_shm_loses_new_image:
  "(case resize_shm 1 tiny_shminfo moved_image_world of
      (r, shminfo, w') \<Rightarrow>
        r = Inr 0 \<and> ximages w' 1 = None
        \<and> map_option width (ximages w' 2) = Some (scr_width w')
        \<and> map_option height (ximages w' 2) = Some (scr_height w')
        \<and> fst (render_root tiny_buf 1 w') = Inl Undefined)"
  by code_simp

text \<open>Read off: the resize reports success and nothing lives at address 1 any more.\<close>

theorem resize_shm_loses_new_image_witness:
  "fst (resize_shm 1 tiny_shminfo moved_image_world) = Inr 0
   \<and> ximages (snd (snd (resize_shm 1 tiny_shminfo moved_image_world))) 1 = None"
  using resize_shm_loses_new_image by (simp split: prod.splits)

text \<open>
  C5 does not hold of the code.  Leaving the event loop because the buffer cannot be
  resized leaves \<^verbatim>\<open>err\<close> at 0, and \<^verbatim>\<open>main\<close> returns 0.  When it is the rebuild of the
  image that fails, \<^verbatim>\<open>err\<close> is 0 as well, and the final \<^verbatim>\<open>xshm_cleanup\<close> destroys the
  image that \<^verbatim>\<open>resize_shm\<close> has already destroyed.
\<close>

theorem main_returns_zero_on_resize_failure:
  "fst (main good_startup resize_failure_world) = Inr 0
   \<and> fst (main good_startup rebuild_failure_world) = Inl Undefined"
  by code_simp

text \<open>Read off: the exit code after the failed buffer resize is 0.\<close>

theorem main_returns_zero_on_resize_failure_witness:
  "fst (main good_startup resize_failure_world) = Inr 0"
  using main_returns_zero_on_resize_failure by simp

end
